theory Spec2Isabelle
  imports Complex_Main
begin

section \<open>Kernel density estimation transform (src/transform/kde.ts)\<close>

text \<open>
  The development embeds the function \<open>transform\<close> of \<^verbatim>\<open>src/transform/kde.ts\<close>.
  JavaScript numbers are idealised as real numbers (no infinities, no rounding). NaN is
  kept apart where the code can meet it: as the bandwidth option, as the resolved
  bandwidth, and as argument and value of a kernel and of a density.
  Collaborators whose code is not among the sources are either parameters (record
  \<open>env\<close>) or, where the specification fixes their behaviour, definitions marked
  as modelled from the specification.
\<close>

subsection \<open>Values, rows, the view\<close>

datatype jsval =
    Undefined
  | Null
  | Bool bool
  | Num real
  | Str string
  | Arr "jsval list"

text \<open>A row is the map of its own properties.\<close>

type_synonym row = "string \<rightharpoonup> jsval"

text \<open>Reading a property of a row: a missing property reads as \<open>undefined\<close>.\<close>

definition get_prop :: "row \<Rightarrow> string \<Rightarrow> jsval" where
  "get_prop item k = (case item k of None \<Rightarrow> Undefined | Some v \<Rightarrow> v)"

text \<open>
  The assignment \<open>row[k] = v\<close> to an object that \<open>pick\<close> has created from the literal
  \<open>{}\<close>. On such an object the name \<^verbatim>\<open>__proto__\<close> is the accessor that it inherits
  from \<open>Object.prototype\<close>: assigning an array replaces the prototype, which
  \<open>row[k]\<close> reads back afterwards, and assigning a value that is neither an object nor
  \<open>null\<close> does nothing. Assigning \<open>null\<close> removes the prototype and the accessor with
  it, so that the name is an ordinary property from then on; the entry \<open>Null\<close> under the
  name stands for that too. Every other name is an ordinary property.
  \<open>no_prototype\<close> holds of the values that the accessor ignores.
\<close>

definition no_prototype :: "jsval \<Rightarrow> bool" where
  "no_prototype v = (case v of Arr xs \<Rightarrow> False | Null \<Rightarrow> False | _ \<Rightarrow> True)"

definition set_prop :: "row \<Rightarrow> string \<Rightarrow> jsval \<Rightarrow> row" where
  "set_prop r k v =
     (if k = ''__proto__'' \<and> r k \<noteq> Some Null \<and> no_prototype v then r else r(k \<mapsto> v))"

record view =
  rows :: "row list"

subsection \<open>Options\<close>

text \<open>
  The code inspects the dynamic shape of \<open>fields\<close>, \<open>as\<close> and \<open>extent\<close> only through
  \<open>isArray\<close> and \<open>length\<close>; \<open>NotSeq\<close> stands for any value that is not an array
  (\<open>null\<close>, a number, a string, an object). The entries of an array have the type
  that the interface \<open>Options\<close> declares for them (strings, numbers).
\<close>

datatype 'a seq_val = NotSeq | Seq "'a list"

text \<open>
  A JavaScript number that may be NaN: \<open>None\<close> is NaN. A kernel maps such a number to
  such a number, a density maps a domain sample to one; a bandwidth rule maps a column
  to a number.
\<close>

type_synonym jsnum = "real option"
type_synonym kernel_fn = "jsnum \<Rightarrow> jsnum"
type_synonym density = "real \<Rightarrow> jsnum"
type_synonym bandwidth_fn = "jsval list \<Rightarrow> real"

text \<open>
  \<open>method\<close> is told apart by \<open>isString\<close> and \<open>isFunction\<close>; \<open>bandwidth\<close> by
  \<open>isString\<close>, \<open>isFunction\<close> and \<open>isNumber\<close>, and \<open>BNaN\<close> is the number NaN (for
  which \<open>isNumber\<close> holds and \<open>bw <= 0\<close> does not). \<open>MOther\<close> and \<open>BOther\<close> stand for
  every value of another type.
\<close>

datatype method_val = MStr string | MFun kernel_fn | MOther

datatype bandwidth_val = BStr string | BFun bandwidth_fn | BNum real | BNaN | BOther

text \<open>
  An options object. A property that is absent or \<open>undefined\<close> is \<open>None\<close>
  (\<open>assign\<close> of @antv/util skips \<open>undefined\<close> values, so both behave alike).
  The properties \<open>fields\<close> and \<open>method\<close> are the record fields \<open>opt_fields\<close> and
  \<open>opt_method\<close> (Isabelle reserves both names).
\<close>

record options =
  minSize :: "real option"
  as :: "string seq_val option"
  opt_fields :: "string seq_val option"
  extent :: "real seq_val option"
  opt_method :: "method_val option"
  bandwidth :: "bandwidth_val option"
  step :: "real option"
  groupBy :: "string list option"

definition DEFAULT_OPTIONS :: options where
  "DEFAULT_OPTIONS = \<lparr>
     minSize = Some (1 / 100),
     as = Some (Seq [''key'', ''y'', ''size'']),
     opt_fields = None,
     extent = Some (Seq []),
     opt_method = Some (MStr ''gaussian''),
     bandwidth = Some (BStr ''nrd''),
     step = Some 0,
     groupBy = Some [] \<rparr>"

text \<open>The empty object literal \<open>{}\<close>.\<close>

definition empty_object :: options where
  "empty_object = \<lparr>
     minSize = None, as = None, opt_fields = None, extent = None,
     opt_method = None, bandwidth = None, step = None, groupBy = None \<rparr>"

subsection \<open>The store\<close>

text \<open>
  Options objects live in a store and are passed by reference (an index into \<open>heap\<close>);
  \<open>dv\<close> is the view handed to the transform. \<open>assigned\<close> records every value
  that was assigned to \<open>dv.rows\<close>, oldest first.
\<close>

record state =
  dv :: view
  heap :: "options list"
  assigned :: "row list list"

definition alloc :: "options list \<Rightarrow> options \<Rightarrow> nat \<times> options list" where
  "alloc h obj = (length h, h @ [obj])"

definition deref :: "options list \<Rightarrow> nat \<Rightarrow> options option" where
  "deref h p = (if p < length h then Some (h ! p) else None)"

definition set_rows :: "row list \<Rightarrow> state \<Rightarrow> state" where
  "set_rows result s = s\<lparr>dv := (dv s)\<lparr>rows := result\<rparr>, assigned := assigned s @ [result]\<rparr>"

text \<open>
  \<open>assign(target, ...sources)\<close> of @antv/util: every own property of each source whose
  value is not \<open>undefined\<close> is written into the target object, sources in order; the
  target is changed in place.
\<close>

definition copy_prop :: "'a option \<Rightarrow> 'a option \<Rightarrow> 'a option" where
  "copy_prop old src = (case src of None \<Rightarrow> old | Some v \<Rightarrow> Some v)"

definition mix :: "options \<Rightarrow> options \<Rightarrow> options" where
  "mix tgt obj = \<lparr>
     minSize = copy_prop (minSize tgt) (minSize obj),
     as = copy_prop (as tgt) (as obj),
     opt_fields = copy_prop (opt_fields tgt) (opt_fields obj),
     extent = copy_prop (extent tgt) (extent obj),
     opt_method = copy_prop (opt_method tgt) (opt_method obj),
     bandwidth = copy_prop (bandwidth tgt) (bandwidth obj),
     step = copy_prop (step tgt) (step obj),
     groupBy = copy_prop (groupBy tgt) (groupBy obj) \<rparr>"

definition assign :: "options list \<Rightarrow> nat \<Rightarrow> options list \<Rightarrow> options list" where
  "assign h target sources = h[target := foldl mix (h ! target) sources]"

subsection \<open>Collaborators\<close>

text \<open>
  The value of the variable \<open>bw\<close> after lines 71 to 78: a number, NaN, a string,
  \<open>undefined\<close>, or a value of yet another type (a truth value, an object); the last
  three only as the result of calling a property of the module object of
  \<^verbatim>\<open>util/bandwidth\<close> that is no rule.
\<close>

datatype bw_val = BwNum real | BwNaN | BwStr string | BwUndefined | BwOther

text \<open>
  An exception that is none of the four \<open>TypeError\<close>s of the validation: the call of an
  inherited property in line 73 throws, or the estimator throws in line 88.
\<close>

datatype failure = CallFailed | EstimatorFailed

text \<open>
  \<open>kernel\<close> is the registry of \<^verbatim>\<open>util/kernel\<close> (name and shape function, in key
  order), \<open>bandwidth_nrd\<close> the export \<open>nrd\<close> of \<^verbatim>\<open>util/bandwidth\<close> and
  \<open>bandwidth_rules\<close> its other exports. \<open>bandwidth_inherited\<close> holds the other
  properties that a read of the module object finds, those that it inherits from its
  prototype, each with what a call of it on a column does: it throws, or it returns a
  value. \<open>view_range\<close> and \<open>view_getColumn\<close>
  are the methods \<open>range\<close> and \<open>getColumn\<close> of the view. \<open>kernelDensityEstimation\<close>
  is the estimator of the package simple-statistics: for samples, a kernel and a
  bandwidth it throws or gives a density function. The rules, the range and the column
  are taken as total functions: one of them that throws or does not return is outside
  the model.
\<close>

record env =
  kernel :: "(string \<times> kernel_fn) list"
  bandwidth_nrd :: bandwidth_fn
  bandwidth_rules :: "(string \<times> bandwidth_fn) list"
  bandwidth_inherited :: "string \<Rightarrow> (jsval list \<Rightarrow> failure + bw_val) option"
  view_range :: "view \<Rightarrow> string \<Rightarrow> real \<times> real"
  view_getColumn :: "view \<Rightarrow> string \<Rightarrow> jsval list"
  kernelDensityEstimation :: "jsval list \<Rightarrow> kernel_fn \<Rightarrow> bw_val \<Rightarrow> failure + density"

definition KERNEL_METHODS :: "env \<Rightarrow> string list" where
  "KERNEL_METHODS e = map fst (kernel e)"


text \<open>
  The property read \<open>bandwidth[name]\<close> of line 72, with what the call of line 73 does
  with the property read: an export of the module (a rule, which returns a number), else
  a property that the module object inherits, else nothing (\<open>undefined\<close>). An export
  and an inherited property are both truthy.
\<close>

definition bandwidth_lookup :: "env \<Rightarrow> string \<Rightarrow> (jsval list \<Rightarrow> failure + bw_val) option" where
  "bandwidth_lookup e name =
     (if name = ''nrd'' then Some (\<lambda>column. Inr (BwNum (bandwidth_nrd e column)))
      else case map_of (bandwidth_rules e) name of
             Some rule \<Rightarrow> Some (\<lambda>column. Inr (BwNum (rule column)))
           | None \<Rightarrow> bandwidth_inherited e name)"

text \<open>
  Modelled from the spec: \<open>getFields\<close> of \<^verbatim>\<open>util/option-parser\<close> is not among the
  sources. The specification speaks of the \<open>fields\<close> entry of the options only
  (missing, not a sequence, or empty); the resolved fields are that entry.
\<close>

definition getFields :: "options \<Rightarrow> string seq_val option" where
  "getFields opts = opt_fields opts"

text \<open>
  Modelled from the spec: \<open>getSeriesValues\<close> of \<^verbatim>\<open>util/get-series-values\<close> is not
  among the sources. Section 4.5: starting at \<open>extent[0]\<close>, stepping by the stride
  until \<open>extent[1]\<close> inclusive. The loop need not end (a stride that is not positive),
  so its result is optional; for an extent with fewer than two entries the
  specification names no result.
\<close>

partial_function (option) series_from :: "real \<Rightarrow> real \<Rightarrow> real \<Rightarrow> real list option" where
  "series_from x hi stride =
     (if x \<le> hi
      then Option.bind (series_from (x + stride) hi stride) (\<lambda>rest. Some (x # rest))
      else Some [])"

declare series_from.simps [code]

definition getSeriesValues :: "real list \<Rightarrow> real \<Rightarrow> real list option" where
  "getSeriesValues ext stride =
     (case ext of lo # hi # _ \<Rightarrow> series_from lo hi stride | _ \<Rightarrow> None)"

text \<open>
  Modelled from the spec: \<open>partition\<close> of \<^verbatim>\<open>util/partition\<close> is not among the
  sources. Section 4.4: the group key of a row is the tuple of its \<open>groupBy\<close> values,
  equal tuples share a group, groups come in the order in which their key is first
  seen, rows keep their input order inside a group. The function is \<open>partition_rows\<close>
  here (\<open>partition\<close> is a list function of the library); \<open>keyed_groups\<close> keeps the
  key beside each group.
\<close>

definition group_key :: "string list \<Rightarrow> row \<Rightarrow> jsval list" where
  "group_key group_by item = map (get_prop item) group_by"

fun add_to_group :: "jsval list \<Rightarrow> row \<Rightarrow> (jsval list \<times> row list) list \<Rightarrow> (jsval list \<times> row list) list" where
  "add_to_group k item [] = [(k, [item])]"
| "add_to_group k item ((k', members) # groups) =
     (if k = k' then (k', members @ [item]) # groups
      else (k', members) # add_to_group k item groups)"

definition keyed_groups :: "row list \<Rightarrow> string list \<Rightarrow> (jsval list \<times> row list) list" where
  "keyed_groups items group_by =
     foldl (\<lambda>groups item. add_to_group (group_key group_by item) item groups) [] items"

definition partition_rows :: "row list \<Rightarrow> string list \<Rightarrow> row list list" where
  "partition_rows items group_by = map snd (keyed_groups items group_by)"

subsection \<open>The transform\<close>

text \<open>
  Every \<open>throw\<close> of the code is a \<open>TypeError\<close> (the ConfigError of the
  specification); the constructors tell the four throw sites apart: line 45
  (invalid fields: must be an array of at least 1 strings), line 49 (invalid as: must
  be an array of 3 strings), line 54 (invalid method, with the name given) and line 59
  (invalid method: kernel method must be a function).
\<close>

datatype error =
    InvalidFields
  | InvalidAs
  | UnknownMethod string
  | MethodNotFunction

text \<open>
  How a call ends: with one of the four errors of the validation thrown, with an
  exception of a collaborator passed on, or with a return.
\<close>

datatype outcome = Thrown error | Raised failure | Returned

text \<open>Lines 51 to 60: the kernel named by, or given as, \<open>options.method\<close>.\<close>

definition resolve_method :: "env \<Rightarrow> method_val option \<Rightarrow> error + kernel_fn" where
  "resolve_method e m =
     (case m of
        Some (MStr name) \<Rightarrow>
          (if name \<notin> set (KERNEL_METHODS e) then Inl (UnknownMethod name)
           else (case map_of (kernel e) name of
                   Some k \<Rightarrow> Inr k
                 | None \<Rightarrow> Inl MethodNotFunction))
      | Some (MFun k) \<Rightarrow> Inr k
      | _ \<Rightarrow> Inl MethodNotFunction)"

text \<open>
  Lines 62 to 70. \<open>Math.min\<close> and \<open>Math.max\<close> of no argument are infinite, outside the
  real numbers: the model has no value there (only for an empty \<open>fields\<close>, which the
  validation has excluded).
\<close>

fun Math_min :: "real list \<Rightarrow> real option" where
  "Math_min [] = None"
| "Math_min (x # xs) = Some (fold min xs x)"

fun Math_max :: "real list \<Rightarrow> real option" where
  "Math_max [] = None"
| "Math_max (x # xs) = Some (fold max xs x)"

definition range_array :: "env \<Rightarrow> view \<Rightarrow> string list \<Rightarrow> real list" where
  "range_array e v fs =
     foldl (\<lambda>rangeArr field. rangeArr @ (case view_range e v field of (lo, hi) \<Rightarrow> [lo, hi])) [] fs"

definition resolve_extent :: "env \<Rightarrow> view \<Rightarrow> string list \<Rightarrow> real seq_val option \<Rightarrow> real list option" where
  "resolve_extent e v fs ext =
     (case ext of
        Some (Seq (x # xs)) \<Rightarrow> Some (x # xs)
      | _ \<Rightarrow>
         (let rangeArr = range_array e v fs in
          case (Math_min rangeArr, Math_max rangeArr) of
            (Some lo, Some hi) \<Rightarrow> Some [lo, hi]
          | _ \<Rightarrow> None))"

text \<open>
  Lines 71 to 78; \<open>field0\<close> is \<open>fields[0]\<close>. A string that names a property of the
  module object, exported or inherited, has that property called on the column; a
  callable is called on the column; a number that is not \<open><= 0\<close> stays (NaN among
  them); everything else is replaced by \<open>nrd\<close> of the column.
\<close>

definition resolve_bandwidth :: "env \<Rightarrow> view \<Rightarrow> string \<Rightarrow> bandwidth_val option \<Rightarrow> failure + bw_val" where
  "resolve_bandwidth e v field0 bw =
     (case bw of
        Some (BStr name) \<Rightarrow>
          (case bandwidth_lookup e name of
             Some member \<Rightarrow> member (view_getColumn e v field0)
           | None \<Rightarrow> Inr (BwNum (bandwidth_nrd e (view_getColumn e v field0))))
      | Some (BFun f) \<Rightarrow> Inr (BwNum (f (view_getColumn e v field0)))
      | Some (BNum x) \<Rightarrow>
          (if x \<le> 0 then Inr (BwNum (bandwidth_nrd e (view_getColumn e v field0)))
           else Inr (BwNum x))
      | Some BNaN \<Rightarrow> Inr BwNaN
      | _ \<Rightarrow> Inr (BwNum (bandwidth_nrd e (view_getColumn e v field0))))"

text \<open>\<open>options.step ? options.step : bw\<close>, for a bandwidth that is a number.\<close>

definition stride_of :: "real option \<Rightarrow> real \<Rightarrow> real" where
  "stride_of st bw = (case st of Some x \<Rightarrow> (if x \<noteq> 0 then x else bw) | None \<Rightarrow> bw)"

text \<open>
  The same expression for every value of \<open>bw\<close>: the result when it is a number. For a
  stride that is none the specification names no result of the sampling.
\<close>

definition stride_arg :: "real option \<Rightarrow> bw_val \<Rightarrow> real option" where
  "stride_arg st bw =
     (case bw of
        BwNum b \<Rightarrow> Some (stride_of st b)
      | _ \<Rightarrow> (case st of Some x \<Rightarrow> (if x \<noteq> 0 then Some x else None) | None \<Rightarrow> None))"

text \<open>
  \<open>pick(object, keys)\<close> of @antv/util: a fresh object, to which the listed own
  properties of \<open>object\<close> are assigned in the order of the list; the empty object when
  \<open>object\<close> is \<open>undefined\<close>.
\<close>

definition pick :: "row option \<Rightarrow> string list \<Rightarrow> row" where
  "pick obj ks =
     (case obj of
        None \<Rightarrow> Map.empty
      | Some item \<Rightarrow>
          foldl (\<lambda>result k. case item k of None \<Rightarrow> result | Some v \<Rightarrow> set_prop result k v)
            Map.empty ks)"

text \<open>
  \<open>row[k].push(v)\<close>. The code calls it on \<open>as[1]\<close> and \<open>as[2]\<close> only, which it has
  bound to arrays just before; the other case is not reached.
\<close>

definition push :: "row \<Rightarrow> string \<Rightarrow> jsval \<Rightarrow> row" where
  "push r k v = (case r k of Some (Arr xs) \<Rightarrow> r(k \<mapsto> Arr (xs @ [v])) | _ \<Rightarrow> r)"

text \<open>\<open>sizeValue >= options.minSize\<close>; the comparison with \<open>undefined\<close> is false.\<close>

definition at_least_minSize :: "real option \<Rightarrow> real \<Rightarrow> bool" where
  "at_least_minSize m sizeValue = (case m of Some x \<Rightarrow> x \<le> sizeValue | None \<Rightarrow> False)"

text \<open>
  Lines 97 to 103: the body of the loop over the domain samples. The comparison is
  false for a density that is NaN.
\<close>

definition sample :: "density \<Rightarrow> real option \<Rightarrow> string \<Rightarrow> string \<Rightarrow> row \<Rightarrow> real \<Rightarrow> row" where
  "sample pdf m y size' r yValue =
     (case pdf yValue of
        None \<Rightarrow> r
      | Some sizeValue \<Rightarrow>
          if at_least_minSize m sizeValue
          then push (push r y (Num yValue)) size' (Num sizeValue)
          else r)"

text \<open>Lines 93 to 104: the three assignments and the loop over the domain samples.\<close>

definition fill_row ::
  "row \<Rightarrow> string \<Rightarrow> string \<Rightarrow> string \<Rightarrow> string \<Rightarrow> density \<Rightarrow> real option \<Rightarrow> real list \<Rightarrow> row" where
  "fill_row row0 key y size' field pdf min_size seriesValues =
     (let row1 = set_prop row0 key (Str field);
          row2 = set_prop row1 y (Arr []);
          row3 = set_prop row2 size' (Arr [])
      in foldl (sample pdf min_size y size') row3 seriesValues)"

text \<open>\<open>group[0]\<close>, which is \<open>undefined\<close> for an empty group.\<close>

definition first_of :: "row list \<Rightarrow> row option" where
  "first_of grp = (case grp of [] \<Rightarrow> None | item # _ \<Rightarrow> Some item)"

text \<open>\<open>group.map((item) => item[field])\<close>.\<close>

definition values_of :: "row list \<Rightarrow> string \<Rightarrow> jsval list" where
  "values_of grp field = map (\<lambda>item. get_prop item field) grp"

text \<open>
  Lines 87 to 104: the output row of one group and one field, or the exception of the
  estimator.
\<close>

definition build_row ::
  "env \<Rightarrow> row list \<Rightarrow> string list \<Rightarrow> string \<Rightarrow> string \<Rightarrow> string \<Rightarrow>
   kernel_fn \<Rightarrow> bw_val \<Rightarrow> real list \<Rightarrow> real option \<Rightarrow> string \<Rightarrow> failure + row" where
  "build_row e grp group_by key y size' m bw seriesValues min_size field =
     (let row0 = pick (first_of grp) group_by in
      case kernelDensityEstimation e (values_of grp field) m bw of
        Inl f \<Rightarrow> Inl f
      | Inr pdf \<Rightarrow> Inr (fill_row row0 key y size' field pdf min_size seriesValues))"

text \<open>
  \<open>result.push(row)\<close> inside the loops: an exception ends them, so nothing is pushed
  after it.
\<close>

definition push_row :: "failure + row list \<Rightarrow> failure + row \<Rightarrow> failure + row list" where
  "push_row result r =
     (case result of
        Inl f \<Rightarrow> Inl f
      | Inr rs \<Rightarrow> (case r of Inl f \<Rightarrow> Inl f | Inr x \<Rightarrow> Inr (rs @ [x])))"

text \<open>Lines 80 to 106: the rows of all groups and fields, appended in loop order.\<close>

definition build_result ::
  "env \<Rightarrow> row list list \<Rightarrow> string list \<Rightarrow> string list \<Rightarrow> string \<Rightarrow> string \<Rightarrow> string \<Rightarrow>
   kernel_fn \<Rightarrow> bw_val \<Rightarrow> real list \<Rightarrow> real option \<Rightarrow> failure + row list" where
  "build_result e groups fs group_by key y size' m bw seriesValues min_size =
     foldl (\<lambda>result grp.
              foldl (\<lambda>result field.
                       push_row result
                         (build_row e grp group_by key y size' m bw seriesValues min_size field))
                    result fs)
           (Inr []) groups"

text \<open>\<open>options.groupBy\<close>; it is never \<open>undefined\<close> after the merge with the defaults.\<close>

definition groupBy_of :: "options \<Rightarrow> string list" where
  "groupBy_of opts = (case groupBy opts of Some g \<Rightarrow> g | None \<Rightarrow> [])"

text \<open>
  The transform: \<open>options_ref\<close> is the reference to the caller's options object. The
  result is the outcome with the state reached; \<open>None\<close> when the model has no result
  (the sampling helper does not return, or the specification names no result of it).
\<close>

definition transform :: "env \<Rightarrow> nat \<Rightarrow> state \<Rightarrow> (outcome \<times> state) option" where
  "transform e options_ref s =
     (let (q, h1) = alloc (heap s) empty_object;
          h2 = assign h1 q (DEFAULT_OPTIONS #
                 (case deref h1 options_ref of None \<Rightarrow> [] | Some src \<Rightarrow> [src]));
          s1 = s\<lparr>heap := h2\<rparr>;
          opts = h2 ! q
      in case getFields opts of
           Some (Seq (field0 # rest)) \<Rightarrow>
             (case as opts of
                Some (Seq [key, y, size']) \<Rightarrow>
                  (case resolve_method e (opt_method opts) of
                     Inl err \<Rightarrow> Some (Thrown err, s1)
                   | Inr m \<Rightarrow>
                       (case resolve_extent e (dv s1) (field0 # rest) (extent opts) of
                          None \<Rightarrow> None
                        | Some ext \<Rightarrow>
                            (case resolve_bandwidth e (dv s1) field0 (bandwidth opts) of
                               Inl f \<Rightarrow> Some (Raised f, s1)
                             | Inr bw \<Rightarrow>
                                 (case Option.bind (stride_arg (step opts) bw) (getSeriesValues ext) of
                                    None \<Rightarrow> None
                                  | Some seriesValues \<Rightarrow>
                                      (let group_by = groupBy_of opts;
                                           groups = partition_rows (rows (dv s1)) group_by
                                       in case build_result e groups (field0 # rest) group_by
                                                 key y size' m bw seriesValues (minSize opts) of
                                            Inl f \<Rightarrow> Some (Raised f, s1)
                                          | Inr result \<Rightarrow> Some (Returned, set_rows result s1))))))
              | _ \<Rightarrow> Some (Thrown InvalidAs, s1))
         | _ \<Rightarrow> Some (Thrown InvalidFields, s1))"

subsection \<open>Notions used to state the properties\<close>

text \<open>
  The options the transform works with: the object it builds in line 42 from the
  defaults and the caller's object (the object at \<open>p\<close> in the store \<open>h\<close>).
\<close>

definition merged_options :: "options list \<Rightarrow> nat \<Rightarrow> options" where
  "merged_options h p =
     foldl mix empty_object
       (DEFAULT_OPTIONS # (case deref h p of None \<Rightarrow> [] | Some src \<Rightarrow> [src]))"

text \<open>The three ways in which a configuration is rejected.\<close>

definition fields_rejected :: "options \<Rightarrow> bool" where
  "fields_rejected opts =
     (case getFields opts of None \<Rightarrow> True | Some NotSeq \<Rightarrow> True | Some (Seq fs) \<Rightarrow> fs = [])"

definition as_rejected :: "options \<Rightarrow> bool" where
  "as_rejected opts =
     (case as opts of None \<Rightarrow> True | Some NotSeq \<Rightarrow> True | Some (Seq names) \<Rightarrow> length names \<noteq> 3)"

definition method_rejected :: "env \<Rightarrow> options \<Rightarrow> bool" where
  "method_rejected e opts =
     (case opt_method opts of
        Some (MStr name) \<Rightarrow> name \<notin> set (KERNEL_METHODS e)
      | Some (MFun k) \<Rightarrow> False
      | _ \<Rightarrow> True)"

text \<open>
  A configuration that passes the validation, with what the validation extracts from it:
  the fields, the three output names and the kernel.
\<close>

definition validated ::
  "env \<Rightarrow> options \<Rightarrow> string list \<Rightarrow> string \<Rightarrow> string \<Rightarrow> string \<Rightarrow> kernel_fn \<Rightarrow> bool" where
  "validated e opts fs key y size' m =
     (getFields opts = Some (Seq fs) \<and> fs \<noteq> [] \<and>
      as opts = Some (Seq [key, y, size']) \<and>
      resolve_method e (opt_method opts) = Inr m)"

text \<open>
  The bandwidth the transform uses (or the exception of its resolution), and the domain
  samples it evaluates.
\<close>

definition bandwidth_used :: "env \<Rightarrow> view \<Rightarrow> options \<Rightarrow> string list \<Rightarrow> failure + bw_val" where
  "bandwidth_used e v opts fs = resolve_bandwidth e v (hd fs) (bandwidth opts)"

definition sampling :: "env \<Rightarrow> view \<Rightarrow> options \<Rightarrow> string list \<Rightarrow> real list option" where
  "sampling e v opts fs =
     Option.bind (resolve_extent e v fs (extent opts))
       (\<lambda>ext. case bandwidth_used e v opts fs of
                Inl f \<Rightarrow> None
              | Inr bw \<Rightarrow> Option.bind (stride_arg (step opts) bw) (getSeriesValues ext))"

text \<open>The endpoints of the ranges of the given fields.\<close>

definition range_endpoints :: "env \<Rightarrow> view \<Rightarrow> string list \<Rightarrow> real set" where
  "range_endpoints e v fs =
     (\<Union>field \<in> set fs. {fst (view_range e v field), snd (view_range e v field)})"


text \<open>
  The shape of an output row: under \<open>y\<close> and \<open>size'\<close> it holds arrays of equal length,
  and the entries of the second are numbers not below \<open>m\<close>.
\<close>

definition is_num_at_least :: "real \<Rightarrow> jsval \<Rightarrow> bool" where
  "is_num_at_least m v = (case v of Num x \<Rightarrow> m \<le> x | _ \<Rightarrow> False)"

definition row_shape :: "real \<Rightarrow> string \<Rightarrow> string \<Rightarrow> row \<Rightarrow> bool" where
  "row_shape m y size' r =
     (case (r y, r size') of
        (Some (Arr ys), Some (Arr sizes)) \<Rightarrow>
          length ys = length sizes \<and> list_all (is_num_at_least m) sizes
      | _ \<Rightarrow> False)"

text \<open>The state right after line 42: the merged object has been allocated.\<close>

definition after_merge :: "state \<Rightarrow> nat \<Rightarrow> state" where
  "after_merge s p = s\<lparr>heap := heap s @ [merged_options (heap s) p]\<rparr>"

text \<open>Whether a domain sample is kept: its density is a number that reaches the threshold.\<close>

definition keeps :: "density \<Rightarrow> real option \<Rightarrow> real \<Rightarrow> bool" where
  "keeps pdf min_size yValue =
     (case pdf yValue of None \<Rightarrow> False | Some sizeValue \<Rightarrow> at_least_minSize min_size sizeValue)"

text \<open>The value a kept density is stored as.\<close>

definition size_entry :: "density \<Rightarrow> real \<Rightarrow> jsval" where
  "size_entry pdf yValue = (case pdf yValue of None \<Rightarrow> Undefined | Some sizeValue \<Rightarrow> Num sizeValue)"


text \<open>The results of a list of steps: the first exception, or all values.\<close>

fun sequence :: "('e + 'a) list \<Rightarrow> 'e + 'a list" where
  "sequence [] = Inr []"
| "sequence (x # xs) =
     (case x of
        Inl f \<Rightarrow> Inl f
      | Inr a \<Rightarrow> (case sequence xs of Inl f \<Rightarrow> Inl f | Inr rest \<Rightarrow> Inr (a # rest)))"


definition returned :: "(outcome \<times> state) option \<Rightarrow> bool" where
  "returned res = (case res of Some (Returned, s') \<Rightarrow> True | _ \<Rightarrow> False)"


definition rows_of_result :: "(outcome \<times> state) option \<Rightarrow> row list" where
  "rows_of_result res = (case res of Some (out, s') \<Rightarrow> rows (dv s') | None \<Rightarrow> [])"


text \<open>The groups of a call, each with its key, in the order the transform visits them.\<close>

definition groups_of :: "state \<Rightarrow> nat \<Rightarrow> (jsval list \<times> row list) list" where
  "groups_of s p = keyed_groups (rows (dv s)) (groupBy_of (merged_options (heap s) p))"

subsection \<open>A concrete setting\<close>

text \<open>
  A small instance on which the definitions are evaluated: the boxcar kernel, bandwidth
  rules that read the length of the column, the properties that a module object
  inherits from \<open>Object.prototype\<close>, a view whose range and column are read off its
  rows, and the estimator in the manner of simple-statistics: the sum of the kernel
  weights, divided by the bandwidth and by the number of samples (NaN for a bandwidth
  of 0 and for no samples). A bandwidth that is a string names none of its rules and
  makes it throw; for \<open>undefined\<close> it takes a rule of its own, here the number of
  samples; any other bandwidth that is no number gives NaN.
\<close>

definition numbers :: "jsval list \<Rightarrow> real list" where
  "numbers vs = concat (map (\<lambda>v. case v of Num x \<Rightarrow> [x] | _ \<Rightarrow> []) vs)"

text \<open>\<open>Math.abs(x) <= 1 ? 0.5 : 0\<close>: the comparison is false for NaN.\<close>

definition boxcar :: kernel_fn where
  "boxcar u = (case u of Some x \<Rightarrow> (if \<bar>x\<bar> \<le> 1 then Some (1 / 2) else Some 0) | None \<Rightarrow> Some 0)"


definition ex_column :: "view \<Rightarrow> string \<Rightarrow> jsval list" where
  "ex_column v field = map (\<lambda>item. get_prop item field) (rows v)"

definition ex_range :: "view \<Rightarrow> string \<Rightarrow> real \<times> real" where
  "ex_range v field =
     (case numbers (ex_column v field) of
        [] \<Rightarrow> (0, 0)
      | x # xs \<Rightarrow> (fold min xs x, fold max xs x))"

text \<open>
  A sample as the number that the subtraction \<open>x - X[i]\<close> takes it for; \<open>undefined\<close> is
  NaN (strings and arrays are taken as NaN too; the sampled columns here hold numbers
  and \<open>undefined\<close> only).
\<close>

definition to_num :: "jsval \<Rightarrow> jsnum" where
  "to_num v =
     (case v of Num x \<Rightarrow> Some x | Null \<Rightarrow> Some 0 | Bool b \<Rightarrow> Some (if b then 1 else 0) | _ \<Rightarrow> None)"

definition add_num :: "jsnum \<Rightarrow> jsnum \<Rightarrow> jsnum" where
  "add_num a b = (case a of None \<Rightarrow> None | Some x \<Rightarrow> (case b of None \<Rightarrow> None | Some y \<Rightarrow> Some (x + y)))"

definition ex_density :: "jsval list \<Rightarrow> kernel_fn \<Rightarrow> real \<Rightarrow> density" where
  "ex_density samples k b x =
     (if b = 0 \<or> samples = [] then None
      else map_option (\<lambda>total. total / b / real (length samples))
             (foldl (\<lambda>total v. add_num total (k (map_option (\<lambda>s. (x - s) / b) (to_num v))))
                (Some 0) samples))"

definition ex_kde :: "jsval list \<Rightarrow> kernel_fn \<Rightarrow> bw_val \<Rightarrow> failure + density" where
  "ex_kde samples k bw =
     (case bw of
        BwNum b \<Rightarrow> Inr (ex_density samples k b)
      | BwStr name \<Rightarrow> Inl EstimatorFailed
      | BwUndefined \<Rightarrow> Inr (ex_density samples k (real (length samples)))
      | _ \<Rightarrow> Inr (\<lambda>x. None))"

text \<open>
  The properties of \<open>Object.prototype\<close>, called on a column: \<open>toString\<close> and
  \<open>toLocaleString\<close> return a string; \<open>valueOf\<close> and \<open>constructor\<close> return an
  object, \<open>hasOwnProperty\<close>, \<open>isPrototypeOf\<close> and \<open>propertyIsEnumerable\<close> a truth
  value, the two lookups \<open>undefined\<close>; \<^verbatim>\<open>__proto__\<close> is no function and the two
  definers reject the missing second argument, so the call throws.
\<close>

definition object_prototype :: "string \<Rightarrow> (jsval list \<Rightarrow> failure + bw_val) option" where
  "object_prototype name =
     (if name \<in> set [''toString'', ''toLocaleString'']
      then Some (\<lambda>column. Inr (BwStr ''[object Object]''))
      else if name \<in> set [''valueOf'', ''constructor'', ''hasOwnProperty'', ''isPrototypeOf'',
                           ''propertyIsEnumerable'']
      then Some (\<lambda>column. Inr BwOther)
      else if name \<in> set [''__lookupGetter__'', ''__lookupSetter__'']
      then Some (\<lambda>column. Inr BwUndefined)
      else if name \<in> set [''__proto__'', ''__defineGetter__'', ''__defineSetter__'']
      then Some (\<lambda>column. Inl CallFailed)
      else None)"

definition ex_env :: env where
  "ex_env = \<lparr>
     kernel = [(''boxcar'', boxcar)],
     bandwidth_nrd = (\<lambda>column. real (length column)),
     bandwidth_rules = [(''silverman'', \<lambda>column. real (length column) / 2)],
     bandwidth_inherited = object_prototype,
     view_range = ex_range,
     view_getColumn = ex_column,
     kernelDensityEstimation = ex_kde \<rparr>"

definition ex_rows :: "row list" where
  "ex_rows =
     [[''g'' \<mapsto> Str ''a'', ''v'' \<mapsto> Num 1, ''w'' \<mapsto> Num 0],
      [''g'' \<mapsto> Str ''b'', ''v'' \<mapsto> Num 3, ''w'' \<mapsto> Num 2],
      [''g'' \<mapsto> Str ''a'', ''v'' \<mapsto> Num 2, ''w'' \<mapsto> Num 1]]"

definition ex_options :: options where
  "ex_options = empty_object\<lparr>
     opt_fields := Some (Seq [''v'', ''w'']),
     opt_method := Some (MStr ''boxcar''),
     bandwidth := Some (BNum 1),
     step := Some 1,
     groupBy := Some [''g''] \<rparr>"

text \<open>The state of a call: the view, and one options object in the store (reference 0).\<close>

definition ex_state :: "options \<Rightarrow> state" where
  "ex_state opts = \<lparr> dv = \<lparr> rows = ex_rows \<rparr>, heap = [opts], assigned = [] \<rparr>"

text \<open>
  Variants of the options: the second and third output name equal; a grouping field
  that is also the first and second output name, the first output name only, the first
  and third output name; the first output name \<^verbatim>\<open>__proto__\<close>; a bandwidth that is
  not positive, that is NaN, that names the rule \<open>silverman\<close> (with no step, so that
  the bandwidth is the stride), that names the inherited property \<open>toString\<close>; and a field that no row of the view has,
  with an explicit extent: with a threshold of zero, with the default threshold, with
  the default threshold and the kernel \<open>flat\<close>, with the bandwidth \<open>toString\<close>.
\<close>

definition aliased_options :: options where
  "aliased_options = ex_options\<lparr>as := Some (Seq [''key'', ''d'', ''d''])\<rparr>"







definition named_options :: options where
  "named_options = ex_options\<lparr>bandwidth := Some (BStr ''silverman''), step := None\<rparr>"









section \<open>Properties\<close>

subsection \<open>The sampling loop\<close>

lemma series_from_closed:
  assumes "0 < s"
  shows "series_from x hi s =
     Some (map (\<lambda>k. x + real k * s) [0..<(if x \<le> hi then Suc (nat \<lfloor>(hi - x) / s\<rfloor>) else 0)])"
proof (induction "if x \<le> hi then Suc (nat \<lfloor>(hi - x) / s\<rfloor>) else 0" arbitrary: x)
  case 0
  then have "\<not> x \<le> hi" by (simp split: if_splits)
  then show ?case by (subst series_from.simps) simp
next
  case (Suc n)
  then have le: "x \<le> hi" and n: "n = nat \<lfloor>(hi - x) / s\<rfloor>" by (simp_all split: if_splits)
  have fl: "\<lfloor>(hi - (x + s)) / s\<rfloor> = \<lfloor>(hi - x) / s\<rfloor> - 1"
  proof -
    have "(hi - (x + s)) / s = (hi - x) / s - 1" using assms by (simp add: field_simps)
    then show ?thesis by simp
  qed
  have next_count: "n = (if x + s \<le> hi then Suc (nat \<lfloor>(hi - (x + s)) / s\<rfloor>) else 0)"
  proof (cases "x + s \<le> hi")
    case True
    then have "1 \<le> (hi - x) / s" using assms by (simp add: field_simps)
    then have "1 \<le> \<lfloor>(hi - x) / s\<rfloor>" by linarith
    then have "n = Suc (nat (\<lfloor>(hi - x) / s\<rfloor> - 1))" using n by linarith
    then show ?thesis by (simp only: True if_True fl)
  next
    case False
    then have "(hi - x) / s < 1" using assms by (simp add: field_simps)
    then have "\<lfloor>(hi - x) / s\<rfloor> < 1" by linarith
    then have "n = 0" using n by linarith
    then show ?thesis by (simp only: False if_False)
  qed
  from Suc.hyps(1)[OF this]
  have IH: "series_from (x + s) hi s = Some (map (\<lambda>k. x + s + real k * s) [0..<n])"
    using next_count by simp
  have "map (\<lambda>k. x + real k * s) [0..<Suc n] = x # map (\<lambda>k. x + s + real k * s) [0..<n]"
    by (simp add: map_upt_Suc algebra_simps del: upt_Suc)
  then show ?case using le IH n by (subst series_from.simps) (simp del: upt_Suc)
qed

subsection \<open>The merged options and the validation\<close>

lemma mix_empty_object: "mix x empty_object = x"
  by (simp add: mix_def empty_object_def copy_prop_def)

lemma assign_fresh:
  "assign (h @ [empty_object]) (length h)
      (DEFAULT_OPTIONS # (case deref (h @ [empty_object]) p of None \<Rightarrow> [] | Some src \<Rightarrow> [src]))
    = h @ [merged_options h p]"
  by (auto simp: assign_def merged_options_def deref_def nth_append mix_empty_object)

lemma dv_after_merge: "dv (after_merge s p) = dv s"
  by (simp add: after_merge_def)

lemma after_merge_simps:
  "dv (after_merge s p) = dv s" "assigned (after_merge s p) = assigned s"
  "heap (after_merge s p) = heap s @ [merged_options (heap s) p]"
  by (simp_all add: after_merge_def)

lemma set_rows_simps:
  "rows (dv (set_rows result s)) = result" "assigned (set_rows result s) = assigned s @ [result]"
  "heap (set_rows result s) = heap s"
  by (simp_all add: set_rows_def)

lemma merged_single: "merged_options [opts] 0 = mix (mix empty_object DEFAULT_OPTIONS) opts"
  by (simp add: merged_options_def deref_def)

lemma merged_minSize: "\<exists>m. minSize (merged_options h p) = Some m"
proof -
  have d: "\<exists>m. copy_prop (Some a) src = Some m" for a :: real and src
    by (cases src) (simp_all add: copy_prop_def)
  have "minSize (merged_options h p) =
          (case deref h p of
             None \<Rightarrow> minSize DEFAULT_OPTIONS
           | Some src \<Rightarrow> copy_prop (minSize DEFAULT_OPTIONS) (minSize src))"
    by (simp add: merged_options_def mix_def copy_prop_def empty_object_def split: option.splits)
  moreover have "minSize DEFAULT_OPTIONS = Some (1 / 100)"
    by (simp add: DEFAULT_OPTIONS_def)
  ultimately show ?thesis using d by (cases "deref h p") (simp_all del: divide_eq_eq_numeral1)
qed

lemma merged_extent:
  assumes "p < length h"
  shows "extent (merged_options h p) =
           (case extent (h ! p) of None \<Rightarrow> Some (Seq []) | Some x \<Rightarrow> Some x)"
  using assms
  by (simp add: merged_options_def deref_def mix_def copy_prop_def DEFAULT_OPTIONS_def empty_object_def
      split: option.splits)


lemma transform_unfold:
  "transform e p s =
     (case getFields (merged_options (heap s) p) of
           Some (Seq (field0 # rest)) \<Rightarrow>
             (case as (merged_options (heap s) p) of
                Some (Seq [key, y, size']) \<Rightarrow>
                  (case resolve_method e (opt_method (merged_options (heap s) p)) of
                     Inl err \<Rightarrow> Some (Thrown err, after_merge s p)
                   | Inr m \<Rightarrow>
                       (case resolve_extent e (dv s) (field0 # rest) (extent (merged_options (heap s) p)) of
                          None \<Rightarrow> None
                        | Some ext \<Rightarrow>
                            (case resolve_bandwidth e (dv s) field0 (bandwidth (merged_options (heap s) p)) of
                               Inl f \<Rightarrow> Some (Raised f, after_merge s p)
                             | Inr bw \<Rightarrow>
                                 (case Option.bind (stride_arg (step (merged_options (heap s) p)) bw) (getSeriesValues ext) of
                                    None \<Rightarrow> None
                                  | Some seriesValues \<Rightarrow>
                                      (case build_result e (partition_rows (rows (dv s)) (groupBy_of (merged_options (heap s) p)))
                                              (field0 # rest) (groupBy_of (merged_options (heap s) p))
                                              key y size' m bw seriesValues (minSize (merged_options (heap s) p)) of
                                         Inl f \<Rightarrow> Some (Raised f, after_merge s p)
                                       | Inr result \<Rightarrow> Some (Returned, set_rows result (after_merge s p)))))))
              | _ \<Rightarrow> Some (Thrown InvalidAs, after_merge s p))
         | _ \<Rightarrow> Some (Thrown InvalidFields, after_merge s p))"
  unfolding transform_def alloc_def Let_def prod.case assign_fresh nth_append_length
  by (simp only: after_merge_def[symmetric] dv_after_merge)

lemma transform_fields_rejected:
  "fields_rejected (merged_options (heap s) p) \<Longrightarrow>
   transform e p s = Some (Thrown InvalidFields, after_merge s p)"
  unfolding transform_unfold fields_rejected_def
  by (simp split: option.splits seq_val.splits)

lemma transform_as_rejected:
  "\<not> fields_rejected (merged_options (heap s) p) \<Longrightarrow> as_rejected (merged_options (heap s) p) \<Longrightarrow>
   transform e p s = Some (Thrown InvalidAs, after_merge s p)"
  unfolding transform_unfold fields_rejected_def as_rejected_def
  by (auto split: option.splits seq_val.splits list.splits)

lemma transform_method_rejected:
  "\<not> fields_rejected (merged_options (heap s) p) \<Longrightarrow> \<not> as_rejected (merged_options (heap s) p) \<Longrightarrow>
   resolve_method e (opt_method (merged_options (heap s) p)) = Inl err \<Longrightarrow>
   transform e p s = Some (Thrown err, after_merge s p)"
  unfolding transform_unfold fields_rejected_def as_rejected_def
  by (auto split: option.splits seq_val.splits list.splits)

lemma resolve_method_rejected:
  "(\<exists>err. resolve_method e (opt_method opts) = Inl err) \<longleftrightarrow> method_rejected e opts"
  by (auto simp: resolve_method_def method_rejected_def KERNEL_METHODS_def map_of_eq_None_iff
      split: option.splits method_val.splits)

lemma validated_iff:
  "(\<exists>fs key y size' m. validated e opts fs key y size' m) \<longleftrightarrow>
     \<not> (fields_rejected opts \<or> as_rejected opts \<or> method_rejected e opts)"
proof -
  have three: "length names = 3 \<longleftrightarrow> (\<exists>key y size'. names = [key, y, size'])" for names :: "string list"
    by (cases names rule: remdups_adj.cases) (auto simp: length_Suc_conv)
  have m: "(\<exists>m. resolve_method e (opt_method opts) = Inr m) \<longleftrightarrow> \<not> method_rejected e opts"
    by (auto simp: resolve_method_def method_rejected_def KERNEL_METHODS_def map_of_eq_None_iff
        split: option.splits method_val.splits)
  have f: "(\<exists>fs. getFields opts = Some (Seq fs) \<and> fs \<noteq> []) \<longleftrightarrow> \<not> fields_rejected opts"
    by (auto simp: fields_rejected_def split: option.splits seq_val.splits)
  have a: "(\<exists>key y size'. as opts = Some (Seq [key, y, size'])) \<longleftrightarrow> \<not> as_rejected opts"
    by (auto simp: as_rejected_def three split: option.splits seq_val.splits)
  show ?thesis
    unfolding validated_def using m f a by blast
qed

lemma validated_unique:
  assumes "validated e opts fs key y size' m" and "validated e opts fs2 key2 y2 size2 m2"
  shows "fs2 = fs" "key2 = key" "y2 = y" "size2 = size'" "m2 = m"
  using assms by (simp_all add: validated_def)

lemma transform_valid:
  assumes "validated e (merged_options (heap s) p) fs key y size' m"
  shows "transform e p s =
     (case resolve_extent e (dv s) fs (extent (merged_options (heap s) p)) of
        None \<Rightarrow> None
      | Some ext \<Rightarrow>
          (case bandwidth_used e (dv s) (merged_options (heap s) p) fs of
             Inl f \<Rightarrow> Some (Raised f, after_merge s p)
           | Inr bw \<Rightarrow>
               (case sampling e (dv s) (merged_options (heap s) p) fs of
                  None \<Rightarrow> None
                | Some ys \<Rightarrow>
                    (case build_result e (partition_rows (rows (dv s)) (groupBy_of (merged_options (heap s) p)))
                            fs (groupBy_of (merged_options (heap s) p)) key y size' m bw ys
                            (minSize (merged_options (heap s) p)) of
                       Inl f \<Rightarrow> Some (Raised f, after_merge s p)
                     | Inr result \<Rightarrow> Some (Returned, set_rows result (after_merge s p))))))"
proof -
  from assms obtain f0 rest where fs: "fs = f0 # rest"
    by (cases fs) (auto simp: validated_def)
  show ?thesis
    using assms unfolding validated_def transform_unfold fs sampling_def bandwidth_used_def
    by (simp split: option.splits sum.splits)
qed

lemma sampling_Some:
  assumes "sampling e v opts fs = Some ys"
  shows "\<exists>ext bw. resolve_extent e v fs (extent opts) = Some ext \<and> bandwidth_used e v opts fs = Inr bw"
proof (cases "resolve_extent e v fs (extent opts)")
  case None
  then show ?thesis using assms by (simp add: sampling_def)
next
  case (Some ext)
  then show ?thesis using assms by (cases "bandwidth_used e v opts fs") (simp_all add: sampling_def)
qed

lemma transform_returns:
  assumes "validated e (merged_options (heap s) p) fs key y size' m"
    and "bandwidth_used e (dv s) (merged_options (heap s) p) fs = Inr bw"
    and "sampling e (dv s) (merged_options (heap s) p) fs = Some ys"
    and "build_result e (partition_rows (rows (dv s)) (groupBy_of (merged_options (heap s) p)))
           fs (groupBy_of (merged_options (heap s) p)) key y size' m bw ys
           (minSize (merged_options (heap s) p)) = Inr result"
  shows "transform e p s = Some (Returned, set_rows result (after_merge s p))"
proof -
  from sampling_Some[OF assms(3)] obtain ext where
    "resolve_extent e (dv s) fs (extent (merged_options (heap s) p)) = Some ext" by blast
  then show ?thesis
    unfolding transform_valid[OF assms(1)] using assms(2,3,4) by simp
qed

lemma transform_raises:
  assumes "validated e (merged_options (heap s) p) fs key y size' m"
    and "bandwidth_used e (dv s) (merged_options (heap s) p) fs = Inr bw"
    and "sampling e (dv s) (merged_options (heap s) p) fs = Some ys"
    and "build_result e (partition_rows (rows (dv s)) (groupBy_of (merged_options (heap s) p)))
           fs (groupBy_of (merged_options (heap s) p)) key y size' m bw ys
           (minSize (merged_options (heap s) p)) = Inl f"
  shows "transform e p s = Some (Raised f, after_merge s p)"
proof -
  from sampling_Some[OF assms(3)] obtain ext where
    "resolve_extent e (dv s) fs (extent (merged_options (heap s) p)) = Some ext" by blast
  then show ?thesis
    unfolding transform_valid[OF assms(1)] using assms(2,3,4) by simp
qed

lemma transform_cases:
  obtains (rejected) err where
      "fields_rejected (merged_options (heap s) p) \<or> as_rejected (merged_options (heap s) p)
         \<or> method_rejected e (merged_options (heap s) p)"
      "transform e p s = Some (Thrown err, after_merge s p)"
  | (no_result) fs key y size' m where
      "validated e (merged_options (heap s) p) fs key y size' m"
      "transform e p s = None"
  | (raises) fs key y size' m f where
      "validated e (merged_options (heap s) p) fs key y size' m"
      "transform e p s = Some (Raised f, after_merge s p)"
  | (returns) fs key y size' m bw ys result where
      "validated e (merged_options (heap s) p) fs key y size' m"
      "bandwidth_used e (dv s) (merged_options (heap s) p) fs = Inr bw"
      "sampling e (dv s) (merged_options (heap s) p) fs = Some ys"
      "build_result e (partition_rows (rows (dv s)) (groupBy_of (merged_options (heap s) p)))
           fs (groupBy_of (merged_options (heap s) p)) key y size' m bw ys
           (minSize (merged_options (heap s) p)) = Inr result"
      "transform e p s = Some (Returned, set_rows result (after_merge s p))"
proof -
  let ?o = "merged_options (heap s) p"
  consider (f) "fields_rejected ?o" | (a) "\<not> fields_rejected ?o" "as_rejected ?o"
    | (m) "\<not> fields_rejected ?o" "\<not> as_rejected ?o" "method_rejected e ?o"
    | (ok) "\<not> (fields_rejected ?o \<or> as_rejected ?o \<or> method_rejected e ?o)"
    by blast
  then show thesis
  proof cases
    case f
    then show ?thesis using rejected transform_fields_rejected by blast
  next
    case a
    then show ?thesis using rejected transform_as_rejected by blast
  next
    case m
    then obtain err where "resolve_method e (opt_method ?o) = Inl err"
      using resolve_method_rejected by blast
    then show ?thesis using m rejected transform_method_rejected by blast
  next
    case ok
    then obtain fs key y size' m where v: "validated e ?o fs key y size' m"
      using validated_iff by blast
    show ?thesis
    proof (cases "resolve_extent e (dv s) fs (extent ?o)")
      case None
      then show ?thesis using v no_result transform_valid[OF v] by simp
    next
      case ext: (Some ext)
      show ?thesis
      proof (cases "bandwidth_used e (dv s) ?o fs")
        case (Inl f)
        then show ?thesis using v ext raises[OF v] transform_valid[OF v] by simp
      next
        case bw: (Inr bw)
        show ?thesis
        proof (cases "sampling e (dv s) ?o fs")
          case None
          then show ?thesis using v ext bw no_result[OF v] transform_valid[OF v] by simp
        next
          case ys: (Some ys)
          show ?thesis
          proof (cases "build_result e (partition_rows (rows (dv s)) (groupBy_of ?o))
                          fs (groupBy_of ?o) key y size' m bw ys (minSize ?o)")
            case (Inl f)
            then show ?thesis using raises[OF v] transform_raises[OF v bw ys] by blast
          next
            case (Inr result)
            then show ?thesis using returns[OF v bw ys] transform_returns[OF v bw ys] by blast
          qed
        qed
      qed
    qed
  qed
qed

lemma transform_heap:
  "transform e p s = Some (out, s') \<Longrightarrow> heap s' = heap s @ [merged_options (heap s) p]"
  by (cases rule: transform_cases[of s p e]) (auto simp: after_merge_simps set_rows_simps)


subsection \<open>The result rows\<close>

lemma foldl_append_concat: "foldl (\<lambda>acc x. acc @ f x) init xs = init @ concat (map f xs)"
  by (induction xs arbitrary: init) simp_all

lemma sequence_append:
  "sequence (xs @ ys) =
     (case sequence xs of
        Inl f \<Rightarrow> Inl f
      | Inr front \<Rightarrow> (case sequence ys of Inl f \<Rightarrow> Inl f | Inr back \<Rightarrow> Inr (front @ back)))"
  by (induction xs) (auto split: sum.splits)

lemma sequence_map_Inr: "sequence (map Inr ys) = Inr ys"
  by (induction ys) simp_all

lemma sequence_Inr_only: "sequence xs = Inr ys \<Longrightarrow> xs = map Inr ys"
  by (induction xs arbitrary: ys) (auto split: sum.splits)

lemma sequence_Inr_iff: "sequence xs = Inr ys \<longleftrightarrow> xs = map Inr ys"
  using sequence_Inr_only sequence_map_Inr by metis

lemma push_row_Inl: "push_row (Inl f) r = Inl f"
  by (simp add: push_row_def)

lemma push_row_Inr:
  "push_row (Inr rs) (Inl f) = Inl f" "push_row (Inr rs) (Inr r) = Inr (rs @ [r])"
  by (simp_all add: push_row_def)

lemma foldl_push_row_Inl: "foldl (\<lambda>acc x. push_row acc (g x)) (Inl f) xs = Inl f"
  by (induction xs) (simp_all add: push_row_Inl)

lemma foldl_push_row:
  "foldl (\<lambda>acc x. push_row acc (g x)) (Inr rs) xs =
     (case sequence (map g xs) of Inl f \<Rightarrow> Inl f | Inr ys \<Rightarrow> Inr (rs @ ys))"
proof (induction xs arbitrary: rs)
  case Nil
  then show ?case by simp
next
  case (Cons x xs)
  show ?case
  proof (cases "g x")
    case (Inl f)
    then show ?thesis by (simp add: push_row_Inr foldl_push_row_Inl)
  next
    case (Inr r)
    then show ?thesis by (simp add: push_row_Inr Cons.IH split: sum.splits)
  qed
qed

lemma foldl_rows_Inl:
  "foldl (\<lambda>acc grp. foldl (\<lambda>acc x. push_row acc (g grp x)) acc fs) (Inl f) groups = Inl f"
  by (induction groups) (simp_all add: foldl_push_row_Inl)

lemma foldl_rows:
  "foldl (\<lambda>acc grp. foldl (\<lambda>acc x. push_row acc (g grp x)) acc fs) (Inr rs) groups =
     (case sequence (concat (map (\<lambda>grp. map (g grp) fs) groups)) of
        Inl f \<Rightarrow> Inl f
      | Inr ys \<Rightarrow> Inr (rs @ ys))"
proof (induction groups arbitrary: rs)
  case Nil
  then show ?case by simp
next
  case (Cons grp groups)
  show ?case
  proof (cases "sequence (map (g grp) fs)")
    case (Inl f)
    then show ?thesis by (simp add: foldl_push_row foldl_rows_Inl sequence_append)
  next
    case (Inr first)
    then show ?thesis by (simp add: foldl_push_row Cons.IH sequence_append split: sum.splits)
  qed
qed

lemma build_result_sequence:
  "build_result e groups fs group_by key y size' m bw seriesValues min_size =
     sequence (concat (map (\<lambda>grp. map (build_row e grp group_by key y size' m bw seriesValues min_size) fs)
                        groups))"
  unfolding build_result_def foldl_rows by (simp split: sum.splits)

lemma length_concat_const:
  "(\<And>x. x \<in> set xs \<Longrightarrow> length (f x) = n) \<Longrightarrow> length (concat (map f xs)) = length xs * n"
  by (induction xs) simp_all

lemma nth_concat_const:
  assumes "\<And>x. x \<in> set xs \<Longrightarrow> length (f x) = n" and "i < length xs" and "j < n"
  shows "concat (map f xs) ! (i * n + j) = f (xs ! i) ! j"
  using assms
proof (induction xs arbitrary: i)
  case Nil
  then show ?case by simp
next
  case (Cons x xs)
  show ?case
  proof (cases i)
    case 0
    then show ?thesis using Cons.prems by (simp add: nth_append)
  next
    case (Suc i')
    have "concat (map f xs) ! (i' * n + j) = f (xs ! i') ! j"
      using Cons.IH[of i'] Cons.prems Suc by simp
    then show ?thesis using Cons.prems Suc by (simp add: nth_append add.assoc)
  qed
qed

lemma index_in_range:
  assumes "i < g" and "j < (n::nat)"
  shows "i * n + j < g * n"
proof -
  have "i * n + j < Suc i * n" using assms(2) by simp
  also have "\<dots> \<le> g * n" using assms(1) by (intro mult_le_mono1) simp
  finally show ?thesis .
qed

lemma build_result_rows:
  assumes "build_result e groups fs group_by key y size' m bw seriesValues min_size = Inr result"
  shows "length result = length groups * length fs"
    and "i < length groups \<Longrightarrow> j < length fs \<Longrightarrow>
         build_row e (groups ! i) group_by key y size' m bw seriesValues min_size (fs ! j) =
           Inr (result ! (i * length fs + j))"
proof -
  let ?f = "\<lambda>grp. map (build_row e grp group_by key y size' m bw seriesValues min_size) fs"
  from assms have eq: "concat (map ?f groups) = map Inr result"
    by (simp only: build_result_sequence sequence_Inr_iff)
  have "length (concat (map ?f groups)) = length groups * length fs"
    using length_concat_const[of groups ?f "length fs"] by simp
  then show len: "length result = length groups * length fs"
    by (simp add: eq)
  assume i: "i < length groups" and j: "j < length fs"
  have inside: "i * length fs + j < length result"
    using index_in_range[OF i j] by (simp only: len)
  have "concat (map ?f groups) ! (i * length fs + j) = ?f (groups ! i) ! j"
    using nth_concat_const[of groups ?f "length fs" i j] i j by simp
  then show "build_row e (groups ! i) group_by key y size' m bw seriesValues min_size (fs ! j) =
           Inr (result ! (i * length fs + j))"
    using inside j by (simp add: eq)
qed

lemma build_result_member:
  assumes "build_result e groups fs group_by key y size' m bw seriesValues min_size = Inr result"
    and "r \<in> set result"
  shows "\<exists>grp field. build_row e grp group_by key y size' m bw seriesValues min_size field = Inr r"
proof -
  let ?f = "\<lambda>grp. map (build_row e grp group_by key y size' m bw seriesValues min_size) fs"
  from assms(1) have eq: "concat (map ?f groups) = map Inr result"
    by (simp only: build_result_sequence sequence_Inr_iff)
  from assms(2) have "Inr r \<in> set (map Inr result)" by simp
  then have "Inr r \<in> set (concat (map ?f groups))" by (simp only: eq)
  then obtain grp field where
    "Inr r = build_row e grp group_by key y size' m bw seriesValues min_size field" by auto
  then show ?thesis by (intro exI[of _ grp] exI[of _ field]) simp
qed

lemma build_row_Inr:
  assumes "build_row e grp group_by key y size' m bw seriesValues min_size field = Inr r"
  shows "\<exists>pdf. kernelDensityEstimation e (values_of grp field) m bw = Inr pdf \<and>
           r = fill_row (pick (first_of grp) group_by) key y size' field pdf min_size seriesValues"
  using assms by (auto simp: build_row_def Let_def split: sum.splits)

lemma build_result_estimated:
  assumes "\<And>samples. kernelDensityEstimation e samples m bw = Inr (est samples)"
  shows "build_result e groups fs group_by key y size' m bw seriesValues min_size =
     Inr (concat (map (\<lambda>grp. map (\<lambda>field. fill_row (pick (first_of grp) group_by) key y size' field
                                          (est (values_of grp field)) min_size seriesValues) fs)
                    groups))"
proof -
  have row: "build_row e grp group_by key y size' m bw seriesValues min_size =
      (\<lambda>field. Inr (fill_row (pick (first_of grp) group_by) key y size' field
             (est (values_of grp field)) min_size seriesValues))" for grp
    by (rule ext) (simp add: build_row_def Let_def assms)
  have "concat (map (\<lambda>grp. map (build_row e grp group_by key y size' m bw seriesValues min_size) fs) groups)
      = map Inr (concat (map (\<lambda>grp. map (\<lambda>field. fill_row (pick (first_of grp) group_by) key y size' field
                                          (est (values_of grp field)) min_size seriesValues) fs)
                    groups))"
    by (simp add: map_concat row comp_def)
  then show ?thesis
    by (simp only: build_result_sequence sequence_Inr_iff)
qed

lemma rows_when_estimated:
  assumes "validated e (merged_options (heap s) p) fs key y size' m"
    and "bandwidth_used e (dv s) (merged_options (heap s) p) fs = Inr bw"
    and "sampling e (dv s) (merged_options (heap s) p) fs = Some ys"
    and "\<And>samples. kernelDensityEstimation e samples m bw = Inr (est samples)"
  shows "returned (transform e p s)"
    and "rows_of_result (transform e p s) =
           concat (map (\<lambda>grp. map (\<lambda>field. fill_row (pick (first_of grp) (groupBy_of (merged_options (heap s) p)))
                                      key y size' field (est (values_of grp field))
                                      (minSize (merged_options (heap s) p)) ys) fs)
                    (partition_rows (rows (dv s)) (groupBy_of (merged_options (heap s) p))))"
  using transform_returns[OF assms(1,2,3) build_result_estimated[of e m bw est, OF assms(4)]]
  by (simp_all add: returned_def rows_of_result_def set_rows_simps)

subsection \<open>One output row\<close>

lemma set_prop_Arr: "set_prop r k (Arr xs) = r(k \<mapsto> Arr xs)"
  by (simp add: set_prop_def no_prototype_def)



lemma push_same: "push (r(k \<mapsto> Arr xs)) k v = r(k \<mapsto> Arr (xs @ [v]))"
  by (simp add: push_def)

lemma push_other: "k \<noteq> k' \<Longrightarrow> push (r(k' \<mapsto> w)) k v = (push r k v)(k' \<mapsto> w)"
  by (auto simp: push_def fun_eq_iff split: option.splits jsval.splits)


lemma sample_drop: "\<not> keeps pdf m x \<Longrightarrow> sample pdf m y size' r x = r"
  by (simp add: sample_def keeps_def split: option.splits)

lemma sample_keep:
  "keeps pdf m x \<Longrightarrow> sample pdf m y size' r x = push (push r y (Num x)) size' (size_entry pdf x)"
  by (auto simp: sample_def keeps_def size_entry_def split: option.splits)

lemma foldl_sample_distinct:
  assumes "y \<noteq> size'" and "r y = Some (Arr ys)" and "r size' = Some (Arr sizes)"
  shows "foldl (sample pdf ms y size') r xs =
     r(y \<mapsto> Arr (ys @ map Num (filter (keeps pdf ms) xs)),
       size' \<mapsto> Arr (sizes @ map (size_entry pdf) (filter (keeps pdf ms) xs)))"
  using assms
proof (induction xs arbitrary: r ys sizes)
  case Nil
  then show ?case by (auto simp: fun_eq_iff)
next
  case (Cons x xs)
  show ?case
  proof (cases "keeps pdf ms x")
    case True
    let ?keep = "filter (keeps pdf ms) xs"
    let ?r = "r(y \<mapsto> Arr (ys @ [Num x]), size' \<mapsto> Arr (sizes @ [size_entry pdf x]))"
    have step: "sample pdf ms y size' r x = ?r"
      using Cons.prems by (simp add: sample_keep[OF True] push_def)
    have "foldl (sample pdf ms y size') r (x # xs) = foldl (sample pdf ms y size') ?r xs"
      by (simp only: foldl_Cons step)
    also have "\<dots> = ?r(y \<mapsto> Arr ((ys @ [Num x]) @ map Num ?keep),
           size' \<mapsto> Arr ((sizes @ [size_entry pdf x]) @ map (size_entry pdf) ?keep))"
      by (rule Cons.IH) (use Cons.prems in auto)
    also have "\<dots> = r(y \<mapsto> Arr (ys @ map Num (filter (keeps pdf ms) (x # xs))),
           size' \<mapsto> Arr (sizes @ map (size_entry pdf) (filter (keeps pdf ms) (x # xs))))"
      using True by (auto simp: fun_eq_iff)
    finally show ?thesis .
  next
    case False
    show ?thesis using False Cons.IH[OF Cons.prems] by (simp only: foldl_Cons sample_drop[OF False]) simp
  qed
qed

lemma fill_row_distinct:
  assumes "y \<noteq> size'"
  shows "fill_row row0 key y size' field pdf min_size seriesValues y =
           Some (Arr (map Num (filter (keeps pdf min_size) seriesValues)))"
    and "fill_row row0 key y size' field pdf min_size seriesValues size' =
           Some (Arr (map (size_entry pdf) (filter (keeps pdf min_size) seriesValues)))"
  using assms unfolding fill_row_def Let_def set_prop_Arr
  by (subst foldl_sample_distinct[where ys="[]" and sizes="[]"]; simp)+

lemma fill_row_shape:
  assumes "y \<noteq> size'"
  shows "row_shape m y size' (fill_row row0 key y size' field pdf (Some m) seriesValues)"
  unfolding row_shape_def fill_row_distinct[OF assms]
  by (auto simp: list_all_iff keeps_def size_entry_def is_num_at_least_def at_least_minSize_def
      split: option.splits)









subsection \<open>The groups\<close>










subsection \<open>Extent and bandwidth\<close>

lemma range_array_concat:
  "range_array e v fs = concat (map (\<lambda>field. [fst (view_range e v field), snd (view_range e v field)]) fs)"
  unfolding range_array_def foldl_append_concat
  by (simp add: case_prod_beta)

lemma set_range_array: "set (range_array e v fs) = range_endpoints e v fs"
  by (auto simp: range_array_concat range_endpoints_def)

lemma Math_min_Min: "xs \<noteq> [] \<Longrightarrow> Math_min xs = Some (Min (set xs))"
  by (cases xs) (simp_all add: Min.set_eq_fold[symmetric])

lemma Math_max_Max: "xs \<noteq> [] \<Longrightarrow> Math_max xs = Some (Max (set xs))"
  by (cases xs) (simp_all add: Max.set_eq_fold[symmetric])

lemma range_array_nonempty: "fs \<noteq> [] \<Longrightarrow> range_array e v fs \<noteq> []"
  by (cases fs) (simp_all add: range_array_concat)

lemma resolve_extent_computed:
  assumes "fs \<noteq> []" and "ext = None \<or> ext = Some NotSeq \<or> ext = Some (Seq [])"
  shows "resolve_extent e v fs ext =
           Some [Min (range_endpoints e v fs), Max (range_endpoints e v fs)]"
  using assms(2) range_array_nonempty[OF assms(1), of e v]
  by (auto simp: resolve_extent_def Let_def Math_min_Min Math_max_Max set_range_array)


lemma bandwidth_lookup_nrd:
  "bandwidth_lookup e ''nrd'' = Some (\<lambda>column. Inr (BwNum (bandwidth_nrd e column)))"
  by (simp add: bandwidth_lookup_def)

lemma bandwidth_lookup_rule:
  "name \<noteq> ''nrd'' \<Longrightarrow> map_of (bandwidth_rules e) name = Some rule \<Longrightarrow>
   bandwidth_lookup e name = Some (\<lambda>column. Inr (BwNum (rule column)))"
  by (simp add: bandwidth_lookup_def)

lemma resolve_bandwidth_nrd:
  "resolve_bandwidth e v field0 (Some (BStr ''nrd'')) =
     Inr (BwNum (bandwidth_nrd e (view_getColumn e v field0)))"
  by (simp add: resolve_bandwidth_def bandwidth_lookup_nrd)

subsection \<open>The concrete setting, evaluated\<close>

lemma returnedD: "returned res \<Longrightarrow> \<exists>s'. res = Some (Returned, s')"
  by (auto simp: returned_def split: option.splits outcome.splits)

lemma sampling_with:
  "bandwidth_used e v opts fs = Inr bw \<Longrightarrow>
   sampling e v opts fs =
     Option.bind (resolve_extent e v fs (extent opts))
       (\<lambda>ext. Option.bind (stride_arg (step opts) bw) (getSeriesValues ext))"
  by (simp add: sampling_def)

lemma ex_state_simps:
  "heap (ex_state opts) = [opts]" "dv (ex_state opts) = \<lparr> rows = ex_rows \<rparr>" "assigned (ex_state opts) = []"
  by (simp_all add: ex_state_def)


lemma ex_estimator: "kernelDensityEstimation ex_env samples k (BwNum b) = Inr (ex_density samples k b)"
  by (simp add: ex_env_def ex_kde_def)

lemma ex_extent: "resolve_extent ex_env \<lparr> rows = ex_rows \<rparr> [''v'', ''w''] (Some (Seq [])) = Some [0, 3]"
  by (simp add: resolve_extent_def range_array_def
      ex_env_def ex_rows_def ex_range_def ex_column_def numbers_def get_prop_def)

lemma ex_series: "getSeriesValues [0, 3] 1 = Some [0, 1, 2, 3]"
  by (simp add: getSeriesValues_def series_from.simps)

lemma ex_column_length: "length (view_getColumn ex_env \<lparr> rows = ex_rows \<rparr> field) = 3"
  by (simp add: ex_env_def ex_column_def ex_rows_def)

lemma ex_merged: "merged_options [ex_options] 0 =
   \<lparr> minSize = Some (1 / 100), as = Some (Seq [''key'', ''y'', ''size'']),
     opt_fields = Some (Seq [''v'', ''w'']), extent = Some (Seq []),
     opt_method = Some (MStr ''boxcar''), bandwidth = Some (BNum 1), step = Some 1,
     groupBy = Some [''g''] \<rparr>"
  by (simp add: merged_single ex_options_def mix_def copy_prop_def
      DEFAULT_OPTIONS_def empty_object_def)

lemma ex_validated: "validated ex_env (merged_options (heap (ex_state ex_options)) 0) [''v'', ''w''] ''key'' ''y'' ''size'' boxcar"
  by (simp add: ex_state_simps ex_merged validated_def getFields_def resolve_method_def KERNEL_METHODS_def ex_env_def)

lemma ex_bandwidth:
  "bandwidth_used ex_env (dv (ex_state ex_options)) (merged_options (heap (ex_state ex_options)) 0)
     [''v'', ''w''] = Inr (BwNum 1)"
  by (simp add: ex_state_simps ex_merged bandwidth_used_def resolve_bandwidth_def)

lemma ex_sampling: "sampling ex_env (dv (ex_state ex_options)) (merged_options (heap (ex_state ex_options)) 0) [''v'', ''w''] = Some [0,1,2,3]"
  unfolding sampling_with[OF ex_bandwidth]
  by (simp add: ex_state_simps ex_merged ex_extent stride_arg_def stride_of_def ex_series)

lemma ex_returns:
  "\<exists>s'. transform ex_env 0 (ex_state ex_options) = Some (Returned, s')"
  using rows_when_estimated(1)[OF ex_validated ex_bandwidth ex_sampling ex_estimator]
  by (rule returnedD)



lemma ex_partition:
  "partition_rows ex_rows [''g''] =
     [[[''g'' \<mapsto> Str ''a'', ''v'' \<mapsto> Num 1, ''w'' \<mapsto> Num 0],
       [''g'' \<mapsto> Str ''a'', ''v'' \<mapsto> Num 2, ''w'' \<mapsto> Num 1]],
      [[''g'' \<mapsto> Str ''b'', ''v'' \<mapsto> Num 3, ''w'' \<mapsto> Num 2]]]"
  by (simp add: partition_rows_def keyed_groups_def group_key_def get_prop_def ex_rows_def)










lemma named_merged: "merged_options [named_options] 0 =
   \<lparr> minSize = Some (1 / 100), as = Some (Seq [''key'', ''y'', ''size'']),
     opt_fields = Some (Seq [''v'', ''w'']), extent = Some (Seq []),
     opt_method = Some (MStr ''boxcar''), bandwidth = Some (BStr ''silverman''), step = Some 0,
     groupBy = Some [''g''] \<rparr>"
  by (simp add: merged_single named_options_def ex_options_def mix_def copy_prop_def
      DEFAULT_OPTIONS_def empty_object_def)

lemma named_validated:
  "validated ex_env (merged_options (heap (ex_state named_options)) 0) [''v'', ''w''] ''key'' ''y'' ''size'' boxcar"
  by (simp add: ex_state_simps named_merged validated_def getFields_def resolve_method_def
      KERNEL_METHODS_def ex_env_def)

lemma named_bandwidth:
  "bandwidth_used ex_env (dv (ex_state named_options)) (merged_options (heap (ex_state named_options)) 0)
     [''v'', ''w''] = Inr (BwNum (3 / 2))"
  by (simp add: ex_state_simps named_merged bandwidth_used_def resolve_bandwidth_def
      bandwidth_lookup_def ex_env_def ex_column_def ex_rows_def)

lemma named_sampling:
  "sampling ex_env (dv (ex_state named_options)) (merged_options (heap (ex_state named_options)) 0)
     [''v'', ''w''] = Some [0, 3 / 2, 3]"
  unfolding sampling_with[OF named_bandwidth]
  by (simp add: ex_state_simps named_merged ex_extent stride_arg_def stride_of_def
      getSeriesValues_def series_from.simps)

lemma named_returns: "returned (transform ex_env 0 (ex_state named_options))"
  by (rule rows_when_estimated(1)[OF named_validated named_bandwidth named_sampling ex_estimator])






lemma aliased_merged: "merged_options [aliased_options] 0 =
   \<lparr> minSize = Some (1 / 100), as = Some (Seq [''key'', ''d'', ''d'']),
     opt_fields = Some (Seq [''v'', ''w'']), extent = Some (Seq []),
     opt_method = Some (MStr ''boxcar''), bandwidth = Some (BNum 1), step = Some 1,
     groupBy = Some [''g''] \<rparr>"
  by (simp add: merged_single aliased_options_def ex_options_def mix_def copy_prop_def
      DEFAULT_OPTIONS_def empty_object_def)

lemma aliased_validated:
  "validated ex_env (merged_options (heap (ex_state aliased_options)) 0) [''v'', ''w''] ''key'' ''d'' ''d'' boxcar"
  by (simp add: ex_state_simps aliased_merged validated_def getFields_def resolve_method_def
      KERNEL_METHODS_def ex_env_def)

lemma aliased_bandwidth:
  "bandwidth_used ex_env (dv (ex_state aliased_options)) (merged_options (heap (ex_state aliased_options)) 0)
     [''v'', ''w''] = Inr (BwNum 1)"
  by (simp add: ex_state_simps aliased_merged bandwidth_used_def resolve_bandwidth_def)

lemma aliased_sampling:
  "sampling ex_env (dv (ex_state aliased_options)) (merged_options (heap (ex_state aliased_options)) 0)
     [''v'', ''w''] = Some [0, 1, 2, 3]"
  unfolding sampling_with[OF aliased_bandwidth]
  by (simp add: ex_state_simps aliased_merged ex_extent stride_arg_def stride_of_def ex_series)

lemma aliased_first_row:
  "hd (rows_of_result (transform ex_env 0 (ex_state aliased_options))) ''d'' =
     Some (Arr [Num 0, Num (1 / 4), Num 1, Num (1 / 2), Num 2, Num (1 / 2), Num 3, Num (1 / 4)])"
  unfolding rows_when_estimated(2)[OF aliased_validated aliased_bandwidth aliased_sampling ex_estimator]
  by (simp add: ex_state_simps aliased_merged groupBy_of_def ex_partition
      fill_row_def Let_def set_prop_def no_prototype_def sample_def push_same push_other
      at_least_minSize_def ex_density_def boxcar_def to_num_def add_num_def
      values_of_def first_of_def get_prop_def pick_def)


















































section \<open>The claims\<close>

subsection \<open>Claim C1\<close>



subsection \<open>Claim C2\<close>

text \<open>
  Claim C2, amended. When the second and the third output name differ, every output
  row holds under them two arrays of equal length, and every entry of the second is a
  number not below the resolved \<open>minSize\<close>.
\<close>

theorem output_row_shape:
  assumes run: "transform e p s = Some (Returned, s')"
    and names: "as (merged_options (heap s) p) = Some (Seq [key, y, size'])"
    and distinct: "y \<noteq> size'"
    and r: "r \<in> set (rows (dv s'))"
  shows "\<exists>m. minSize (merged_options (heap s) p) = Some m \<and> row_shape m y size' r"
proof -
  obtain m where m: "minSize (merged_options (heap s) p) = Some m"
    using merged_minSize by blast
  from run show ?thesis
  proof (cases rule: transform_cases[of s p e])
    case (returns fs key0 y0 size0 k bw ys result)
    from returns(1) names have same: "key0 = key" "y0 = y" "size0 = size'"
      by (simp_all add: validated_def)
    from returns(5) run have "rows (dv s') = result"
      by (auto simp: set_rows_simps)
    with r have "r \<in> set result" by simp
    from build_result_member[OF returns(4) this] obtain grp field where
      "build_row e grp (groupBy_of (merged_options (heap s) p)) key0 y0 size0 k bw ys
         (minSize (merged_options (heap s) p)) field = Inr r"
      by blast
    from build_row_Inr[OF this] obtain pdf where
      "r = fill_row (pick (first_of grp) (groupBy_of (merged_options (heap s) p))) key y size' field pdf
             (Some m) ys"
      by (auto simp: same m)
    then show ?thesis using m fill_row_shape[OF distinct] by simp
  qed simp_all
qed

theorem output_row_shape_witness:
  "returned (transform ex_env 0 (ex_state ex_options)) \<and>
   as (merged_options (heap (ex_state ex_options)) 0) = Some (Seq [''key'', ''y'', ''size'']) \<and>
   ''y'' \<noteq> ''size'' \<and>
   row_shape (1 / 100) ''y'' ''size'' (hd (rows_of_result (transform ex_env 0 (ex_state ex_options))))"
proof -
  obtain s' where t: "transform ex_env 0 (ex_state ex_options) = Some (Returned, s')"
    using ex_returns by blast
  have names: "as (merged_options (heap (ex_state ex_options)) 0) = Some (Seq [''key'', ''y'', ''size''])"
    by (simp add: ex_state_simps ex_merged)
  have d: "''y'' \<noteq> ''size''" by simp
  have "rows_of_result (transform ex_env 0 (ex_state ex_options)) \<noteq> []"
    unfolding rows_when_estimated(2)[OF ex_validated ex_bandwidth ex_sampling ex_estimator]
    by (simp add: ex_state_simps ex_merged groupBy_of_def ex_partition)
  then have mem: "hd (rows (dv s')) \<in> set (rows (dv s'))"
    by (simp add: t rows_of_result_def)
  from output_row_shape [OF t names d mem]
  obtain m where m: "minSize (merged_options (heap (ex_state ex_options)) 0) = Some m"
    and shape: "row_shape m ''y'' ''size'' (hd (rows (dv s')))"
    by blast
  have "minSize (merged_options (heap (ex_state ex_options)) 0) = Some (1 / 100)"
    by (simp add: ex_state_simps ex_merged)
  with m have "m = 1 / 100" by (simp only: option.inject)
  with shape show ?thesis using names by (simp add: t returned_def rows_of_result_def)
qed

text \<open>
  Claim C2 as stated fails when \<open>as[1]\<close> and \<open>as[2]\<close> are the same name: the domain
  samples and the densities are pushed onto one array, and the sample 0 lies below
  the threshold 1/100.
\<close>

theorem output_row_shape_counterexample:
  "returned (transform ex_env 0 (ex_state aliased_options)) \<and>
   as (merged_options (heap (ex_state aliased_options)) 0) = Some (Seq [''key'', ''d'', ''d'']) \<and>
   minSize (merged_options (heap (ex_state aliased_options)) 0) = Some (1 / 100) \<and>
   hd (rows_of_result (transform ex_env 0 (ex_state aliased_options))) ''d'' =
     Some (Arr [Num 0, Num (1 / 4), Num 1, Num (1 / 2), Num 2, Num (1 / 2), Num 3, Num (1 / 4)]) \<and>
   \<not> row_shape (1 / 100) ''d'' ''d'' (hd (rows_of_result (transform ex_env 0 (ex_state aliased_options))))"
  using rows_when_estimated(1)[OF aliased_validated aliased_bandwidth aliased_sampling ex_estimator]
    aliased_first_row
  by (simp add: ex_state_simps aliased_merged row_shape_def is_num_at_least_def)

subsection \<open>Claim C3\<close>




subsection \<open>Claim C4\<close>

text \<open>
  Claim C4. When the caller gives no extent or an empty one, the extent is one pair
  \<open>[lo, hi]\<close>, the least and the greatest of the range endpoints of all configured
  fields together; a non-empty extent is used as it is.
\<close>

theorem extent_resolution:
  assumes "fs \<noteq> []" and "p < length h"
  shows "(extent (h ! p) = None \<or> extent (h ! p) = Some (Seq []) \<longrightarrow>
           (\<exists>lo hi. resolve_extent e v fs (extent (merged_options h p)) = Some [lo, hi] \<and>
                    lo \<in> range_endpoints e v fs \<and> hi \<in> range_endpoints e v fs \<and>
                    (\<forall>x \<in> range_endpoints e v fs. lo \<le> x \<and> x \<le> hi))) \<and>
         (\<forall>xs. xs \<noteq> [] \<and> extent (h ! p) = Some (Seq xs) \<longrightarrow>
               resolve_extent e v fs (extent (merged_options h p)) = Some xs)"
proof -
  have fin: "finite (range_endpoints e v fs)" and ne: "range_endpoints e v fs \<noteq> {}"
    using assms(1) by (auto simp: range_endpoints_def)
  have computed: "\<exists>lo hi. resolve_extent e v fs (extent (merged_options h p)) = Some [lo, hi] \<and>
                    lo \<in> range_endpoints e v fs \<and> hi \<in> range_endpoints e v fs \<and>
                    (\<forall>x \<in> range_endpoints e v fs. lo \<le> x \<and> x \<le> hi)"
    if "extent (h ! p) = None \<or> extent (h ! p) = Some (Seq [])"
  proof -
    from that have "extent (merged_options h p) = Some (Seq [])"
      using merged_extent[OF assms(2)] by auto
    then have "resolve_extent e v fs (extent (merged_options h p)) =
                 Some [Min (range_endpoints e v fs), Max (range_endpoints e v fs)]"
      using resolve_extent_computed[OF assms(1)] by simp
    then show ?thesis using fin ne by (auto intro: Min_in Max_in)
  qed
  have verbatim: "resolve_extent e v fs (extent (merged_options h p)) = Some xs"
    if "xs \<noteq> []" "extent (h ! p) = Some (Seq xs)" for xs
    using that merged_extent[OF assms(2)]
    by (cases xs) (simp_all add: resolve_extent_def)
  show ?thesis using computed verbatim by blast
qed

theorem extent_resolution_witness:
  "[''v'', ''w''] \<noteq> [] \<and> (0::nat) < length [ex_options] \<and> extent ([ex_options] ! 0) = None \<and>
   resolve_extent ex_env \<lparr> rows = ex_rows \<rparr> [''v'', ''w''] (extent (merged_options [ex_options] 0))
     = Some [0, 3]"
proof -
  have absent: "extent ([ex_options] ! 0) = None"
    by (simp add: ex_options_def empty_object_def)
  have computed: "resolve_extent ex_env \<lparr> rows = ex_rows \<rparr> [''v'', ''w'']
      (extent (merged_options [ex_options] 0)) = Some [0, 3]"
    by (simp add: ex_merged resolve_extent_def range_array_def
        ex_env_def ex_rows_def ex_range_def ex_column_def numbers_def get_prop_def)
  show ?thesis
    using extent_resolution [of "[''v'', ''w'']" 0 "[ex_options]" ex_env "\<lparr> rows = ex_rows \<rparr>"]
      absent computed
    by simp
qed

subsection \<open>Claim C5\<close>

text \<open>
  Claim C5. The bandwidth is one value per call, resolved from the column of
  \<open>fields[0]\<close> alone: the rule \<open>nrd\<close> and every other rule that the module exports,
  when named, is applied to that column, a callable is applied to that column, and a
  positive number is taken as it is. Whenever the transform returns, every output row,
  for every group and field, is filled from the density that the estimator gives for
  the values of that field in that group with this one value as bandwidth.
\<close>

theorem bandwidth_resolved_once:
  assumes run: "transform e p s = Some (Returned, s')"
    and v: "validated e (merged_options (heap s) p) fs key y size' m"
  shows "(\<exists>bw ys. bandwidth_used e (dv s) (merged_options (heap s) p) fs = Inr bw \<and>
            sampling e (dv s) (merged_options (heap s) p) fs = Some ys \<and>
            length (rows (dv s')) = length (groups_of s p) * length fs \<and>
            (\<forall>i j. i < length (groups_of s p) \<and> j < length fs \<longrightarrow>
               (\<exists>pdf. kernelDensityEstimation e (values_of (snd (groups_of s p ! i)) (fs ! j)) m bw = Inr pdf \<and>
                      rows (dv s') ! (i * length fs + j) =
                        fill_row (pick (first_of (snd (groups_of s p ! i))) (groupBy_of (merged_options (heap s) p)))
                          key y size' (fs ! j) pdf (minSize (merged_options (heap s) p)) ys))) \<and>
         resolve_bandwidth e (dv s) (hd fs) (Some (BStr ''nrd'')) =
           Inr (BwNum (bandwidth_nrd e (view_getColumn e (dv s) (hd fs)))) \<and>
         (\<forall>name rule. name \<noteq> ''nrd'' \<and> map_of (bandwidth_rules e) name = Some rule \<longrightarrow>
            resolve_bandwidth e (dv s) (hd fs) (Some (BStr name)) =
              Inr (BwNum (rule (view_getColumn e (dv s) (hd fs))))) \<and>
         (\<forall>f. resolve_bandwidth e (dv s) (hd fs) (Some (BFun f)) =
                Inr (BwNum (f (view_getColumn e (dv s) (hd fs))))) \<and>
         (\<forall>x. 0 < x \<longrightarrow> resolve_bandwidth e (dv s) (hd fs) (Some (BNum x)) = Inr (BwNum x)) \<and>
         (\<forall>v' field' b. view_getColumn e v' field' = view_getColumn e (dv s) (hd fs) \<longrightarrow>
            resolve_bandwidth e v' field' b = resolve_bandwidth e (dv s) (hd fs) b)"
proof -
  let ?o = "merged_options (heap s) p"
  let ?gb = "groupBy_of ?o"
  let ?gs = "groups_of s p"
  let ?n = "length fs"
  from run obtain bw ys result where
    bw: "bandwidth_used e (dv s) ?o fs = Inr bw" and ys: "sampling e (dv s) ?o fs = Some ys"
    and built: "build_result e (partition_rows (rows (dv s)) ?gb) fs ?gb key y size' m bw ys (minSize ?o)
                  = Inr result"
    and res: "rows (dv s') = result"
  proof (cases rule: transform_cases[of s p e])
    case (returns fs0 key0 y0 size0 k bw ys result)
    note same = validated_unique[OF v returns(1)]
    from returns(5) run have "rows (dv s') = result" by (auto simp: set_rows_simps)
    then show ?thesis using that returns(2,3,4) unfolding same by blast
  qed simp_all
  have parts: "partition_rows (rows (dv s)) ?gb = map snd ?gs"
    by (simp add: partition_rows_def groups_of_def)
  have len: "length (rows (dv s')) = length ?gs * ?n"
    using build_result_rows(1)[OF built] by (simp add: parts res)
  have each: "\<exists>pdf. kernelDensityEstimation e (values_of (snd (?gs ! i)) (fs ! j)) m bw = Inr pdf \<and>
                rows (dv s') ! (i * ?n + j) =
                  fill_row (pick (first_of (snd (?gs ! i))) ?gb) key y size' (fs ! j) pdf (minSize ?o) ys"
    if "i < length ?gs \<and> j < ?n" for i j
  proof -
    have "build_row e (snd (?gs ! i)) ?gb key y size' m bw ys (minSize ?o) (fs ! j) =
            Inr (result ! (i * ?n + j))"
      using build_result_rows(2)[OF built, of i j] that by (simp add: parts)
    from build_row_Inr[OF this] show ?thesis unfolding res .
  qed
  have rows: "\<exists>bw ys. bandwidth_used e (dv s) ?o fs = Inr bw \<and> sampling e (dv s) ?o fs = Some ys \<and>
            length (rows (dv s')) = length ?gs * ?n \<and>
            (\<forall>i j. i < length ?gs \<and> j < ?n \<longrightarrow>
               (\<exists>pdf. kernelDensityEstimation e (values_of (snd (?gs ! i)) (fs ! j)) m bw = Inr pdf \<and>
                      rows (dv s') ! (i * ?n + j) =
                        fill_row (pick (first_of (snd (?gs ! i))) ?gb) key y size' (fs ! j) pdf (minSize ?o) ys))"
  proof (rule exI[of _ bw], rule exI[of _ ys], intro conjI allI impI)
    show "bandwidth_used e (dv s) ?o fs = Inr bw" by (rule bw)
    show "sampling e (dv s) ?o fs = Some ys" by (rule ys)
    show "length (rows (dv s')) = length ?gs * ?n" by (rule len)
  next
    fix i j assume "i < length ?gs \<and> j < ?n"
    then show "\<exists>pdf. kernelDensityEstimation e (values_of (snd (?gs ! i)) (fs ! j)) m bw = Inr pdf \<and>
                rows (dv s') ! (i * ?n + j) =
                  fill_row (pick (first_of (snd (?gs ! i))) ?gb) key y size' (fs ! j) pdf (minSize ?o) ys"
      by (rule each)
  qed
  have nrd: "resolve_bandwidth e v0 field (Some (BStr ''nrd'')) =
               Inr (BwNum (bandwidth_nrd e (view_getColumn e v0 field)))" for v0 field
    by (rule resolve_bandwidth_nrd)
  have named: "resolve_bandwidth e v0 field (Some (BStr name)) = Inr (BwNum (rule (view_getColumn e v0 field)))"
    if "name \<noteq> ''nrd'' \<and> map_of (bandwidth_rules e) name = Some rule" for v0 field name rule
    using that by (simp add: resolve_bandwidth_def bandwidth_lookup_rule)
  have callable: "resolve_bandwidth e v0 field (Some (BFun f)) = Inr (BwNum (f (view_getColumn e v0 field)))"
    for v0 field f
    by (simp add: resolve_bandwidth_def)
  have number: "resolve_bandwidth e v0 field (Some (BNum x)) = Inr (BwNum x)" if "0 < x" for v0 field x
    using that by (simp add: resolve_bandwidth_def)
  have column_only: "resolve_bandwidth e v' field' b = resolve_bandwidth e v0 field b"
    if "view_getColumn e v' field' = view_getColumn e v0 field" for v0 v' field field' b
    unfolding resolve_bandwidth_def that by (rule refl)
  show ?thesis
  proof (intro conjI allI impI)
    fix name rule assume "name \<noteq> ''nrd'' \<and> map_of (bandwidth_rules e) name = Some rule"
    then show "resolve_bandwidth e (dv s) (hd fs) (Some (BStr name)) =
              Inr (BwNum (rule (view_getColumn e (dv s) (hd fs))))"
      by (rule named)
  next
    fix x :: real assume "0 < x"
    then show "resolve_bandwidth e (dv s) (hd fs) (Some (BNum x)) = Inr (BwNum x)"
      by (rule number)
  next
    fix v' field' b assume "view_getColumn e v' field' = view_getColumn e (dv s) (hd fs)"
    then show "resolve_bandwidth e v' field' b = resolve_bandwidth e (dv s) (hd fs) b"
      by (rule column_only)
  qed (rule rows nrd callable)+
qed

theorem bandwidth_resolved_once_witness:
  "returned (transform ex_env 0 (ex_state named_options)) \<and>
   validated ex_env (merged_options (heap (ex_state named_options)) 0) [''v'', ''w''] ''key'' ''y'' ''size'' boxcar \<and>
   bandwidth (merged_options (heap (ex_state named_options)) 0) = Some (BStr ''silverman'') \<and>
   map_of (bandwidth_rules ex_env) ''silverman'' = Some (\<lambda>column. real (length column) / 2) \<and>
   view_getColumn ex_env (dv (ex_state named_options)) ''v'' = [Num 1, Num 3, Num 2] \<and>
   bandwidth_used ex_env (dv (ex_state named_options)) (merged_options (heap (ex_state named_options)) 0)
     [''v'', ''w''] = Inr (BwNum (3 / 2)) \<and>
   step (merged_options (heap (ex_state named_options)) 0) = Some 0 \<and>
   sampling ex_env (dv (ex_state named_options)) (merged_options (heap (ex_state named_options)) 0)
     [''v'', ''w''] = Some [0, 3 / 2, 3]"
proof -
  obtain s' where t: "transform ex_env 0 (ex_state named_options) = Some (Returned, s')"
    using named_returns returnedD by blast
  have rule: "''silverman'' \<noteq> ''nrd'' \<and>
      map_of (bandwidth_rules ex_env) ''silverman'' = Some (\<lambda>column. real (length column) / 2)"
    by (simp add: ex_env_def)
  have column: "view_getColumn ex_env (dv (ex_state named_options)) ''v'' = [Num 1, Num 3, Num 2]"
    by (simp add: ex_state_simps ex_env_def ex_column_def ex_rows_def get_prop_def)
  have opt: "bandwidth (merged_options (heap (ex_state named_options)) 0) = Some (BStr ''silverman'')"
    by (simp add: ex_state_simps named_merged)
  note pinned = bandwidth_resolved_once [OF t named_validated, THEN conjunct2, THEN conjunct2, THEN conjunct1]
  from pinned [THEN spec, THEN spec, THEN mp, OF rule]
  have "resolve_bandwidth ex_env (dv (ex_state named_options)) (hd [''v'', ''w'']) (Some (BStr ''silverman'')) =
          Inr (BwNum (real (length (view_getColumn ex_env (dv (ex_state named_options)) (hd [''v'', ''w'']))) / 2))"
    by simp
  then have used: "bandwidth_used ex_env (dv (ex_state named_options))
      (merged_options (heap (ex_state named_options)) 0) [''v'', ''w''] = Inr (BwNum (3 / 2))"
    using column by (simp add: bandwidth_used_def opt)
  from rule have rule2: "map_of (bandwidth_rules ex_env) ''silverman'' = Some (\<lambda>column. real (length column) / 2)"
    by (rule conjunct2)
  have no_step: "step (merged_options (heap (ex_state named_options)) 0) = Some 0"
    by (simp add: ex_state_simps named_merged)
  show ?thesis
    by (intro conjI named_returns named_validated opt rule2 column used no_step named_sampling)
qed

subsection \<open>Claim C6\<close>




subsection \<open>Claim C7\<close>

text \<open>
  Claim C7. For an extent \<open>[a, b]\<close> with \<open>a \<le> b\<close> and a positive stride (the step option
  when it is not zero, the resolved bandwidth otherwise) the sampling helper returns a
  sequence that starts at \<open>a\<close>, is strictly increasing, stays at or below \<open>b\<close>, holds
  exactly the points \<open>a + k * stride\<close> up to and including \<open>b\<close>, and is the single
  point \<open>a\<close> when \<open>a = b\<close>.
\<close>

theorem getSeriesValues_domain:
  assumes ab: "a \<le> b" and pos: "0 < stride_of st bw"
  shows "\<exists>ys. getSeriesValues [a, b] (stride_of st bw) = Some ys \<and>
           ys \<noteq> [] \<and> hd ys = a \<and> sorted_wrt (<) ys \<and> (\<forall>v \<in> set ys. v \<le> b) \<and>
           (\<forall>v. v \<in> set ys \<longleftrightarrow> (\<exists>k. v = a + real k * stride_of st bw \<and> v \<le> b)) \<and>
           (a = b \<longrightarrow> ys = [a])"
proof -
  define s where "s = stride_of st bw"
  define n where "n = Suc (nat \<lfloor>(b - a) / s\<rfloor>)"
  define ys where "ys = map (\<lambda>k. a + real k * s) [0..<n]"
  have s: "0 < s" using pos by (simp add: s_def)
  have q: "0 \<le> (b - a) / s" using ab s by simp
  then have fl0: "0 \<le> \<lfloor>(b - a) / s\<rfloor>" by simp
  have run: "getSeriesValues [a, b] s = Some ys"
    using ab series_from_closed[OF s, of a b] by (simp add: getSeriesValues_def ys_def n_def)
  have len: "length ys = n" by (simp add: ys_def)
  have nth: "ys ! k = a + real k * s" if "k < n" for k
    using that by (simp add: ys_def del: upt_Suc)
  have ne: "ys \<noteq> []" using len by (auto simp: n_def)
  have first: "hd ys = a" using nth[of 0] ne by (simp add: hd_conv_nth n_def)
  have incr: "sorted_wrt (<) ys"
    unfolding sorted_wrt_iff_nth_less using s by (auto simp: len nth)
  have below: "v \<le> b" if "v \<in> set ys" for v
  proof -
    from that obtain k where k: "k < n" and v: "v = a + real k * s"
      by (auto simp: ys_def simp del: upt_Suc)
    from k have "int k \<le> \<lfloor>(b - a) / s\<rfloor>" using fl0 unfolding n_def by linarith
    then have "real k \<le> (b - a) / s" by (simp add: le_floor_iff)
    then have "real k * s \<le> b - a" using s by (simp add: field_simps)
    then show ?thesis using v by simp
  qed
  have on_grid: "a + real k * s \<in> set ys" if "a + real k * s \<le> b" for k
  proof -
    from that have "real k \<le> (b - a) / s" using s by (simp add: field_simps)
    then have "int k \<le> \<lfloor>(b - a) / s\<rfloor>" by (simp add: le_floor_iff)
    then have "k < n" using fl0 unfolding n_def by linarith
    then show ?thesis by (auto simp: ys_def simp del: upt_Suc)
  qed
  have grid: "v \<in> set ys \<longleftrightarrow> (\<exists>k. v = a + real k * s \<and> v \<le> b)" for v
  proof
    assume v: "v \<in> set ys"
    then obtain k where "v = a + real k * s" by (auto simp: ys_def simp del: upt_Suc)
    with below[OF v] show "\<exists>k. v = a + real k * s \<and> v \<le> b" by blast
  next
    assume "\<exists>k. v = a + real k * s \<and> v \<le> b"
    then show "v \<in> set ys" using on_grid by blast
  qed
  have single: "ys = [a]" if "a = b"
    using that by (simp add: ys_def n_def)
  show ?thesis
    using run ne first incr below grid single unfolding s_def by blast
qed

theorem getSeriesValues_domain_witness:
  "(0::real) \<le> 2 \<and> 0 < stride_of (Some 1) 5 \<and>
   getSeriesValues [0, 2] (stride_of (Some 1) 5) = Some [0, 1, 2]"
  using getSeriesValues_domain [of 0 2 "Some 1" 5]
  by (simp add: stride_of_def getSeriesValues_def series_from.simps)

subsection \<open>Claim C8\<close>




subsection \<open>Claim C9\<close>

text \<open>
  Claim C9. When the transform throws, be it an error of the validation or an exception
  of a collaborator, the view and the list of assignments to its rows are as before.
  When it returns, exactly one assignment was made, of the rows the view now has, and
  these are the complete result built from the validated options.
\<close>

theorem view_replaced_once:
  "(\<forall>err s'. transform e p s = Some (Thrown err, s') \<longrightarrow>
       dv s' = dv s \<and> assigned s' = assigned s) \<and>
   (\<forall>f s'. transform e p s = Some (Raised f, s') \<longrightarrow>
       dv s' = dv s \<and> assigned s' = assigned s) \<and>
   (\<forall>s'. transform e p s = Some (Returned, s') \<longrightarrow>
       assigned s' = assigned s @ [rows (dv s')] \<and>
       (\<exists>fs key y size' m bw ys.
          validated e (merged_options (heap s) p) fs key y size' m \<and>
          bandwidth_used e (dv s) (merged_options (heap s) p) fs = Inr bw \<and>
          sampling e (dv s) (merged_options (heap s) p) fs = Some ys \<and>
          build_result e (partition_rows (rows (dv s)) (groupBy_of (merged_options (heap s) p)))
              fs (groupBy_of (merged_options (heap s) p)) key y size' m bw ys
              (minSize (merged_options (heap s) p)) = Inr (rows (dv s'))))"
proof (cases rule: transform_cases[of s p e])
  case (rejected err)
  then show ?thesis by (auto simp: after_merge_simps)
next
  case (no_result fs key y size' m)
  then show ?thesis by simp
next
  case (raises fs key y size' m f)
  then show ?thesis by (auto simp: after_merge_simps)
next
  case (returns fs key y size' m bw ys result)
  show ?thesis
  proof (intro conjI allI impI)
    fix s' assume "transform e p s = Some (Returned, s')"
    with returns(5) have s': "s' = set_rows result (after_merge s p)" by simp
    show "assigned s' = assigned s @ [rows (dv s')]"
      by (simp add: s' set_rows_simps after_merge_simps)
    show "\<exists>fs key y size' m bw ys.
          validated e (merged_options (heap s) p) fs key y size' m \<and>
          bandwidth_used e (dv s) (merged_options (heap s) p) fs = Inr bw \<and>
          sampling e (dv s) (merged_options (heap s) p) fs = Some ys \<and>
          build_result e (partition_rows (rows (dv s)) (groupBy_of (merged_options (heap s) p)))
              fs (groupBy_of (merged_options (heap s) p)) key y size' m bw ys
              (minSize (merged_options (heap s) p)) = Inr (rows (dv s'))"
      unfolding s' set_rows_simps using returns(1,2,3,4) by blast
  qed (use returns(5) in simp_all)
qed

theorem view_replaced_once_witness:
  "returned (transform ex_env 0 (ex_state ex_options)) \<and>
   map_option (\<lambda>(out, s'). assigned s') (transform ex_env 0 (ex_state ex_options)) =
     Some [rows_of_result (transform ex_env 0 (ex_state ex_options))]"
proof -
  obtain s' where t: "transform ex_env 0 (ex_state ex_options) = Some (Returned, s')"
    using ex_returns by blast
  with view_replaced_once [of ex_env 0 "ex_state ex_options"]
  have "assigned s' = assigned (ex_state ex_options) @ [rows (dv s')]" by blast
  then show ?thesis
    by (simp add: t returned_def rows_of_result_def ex_state_simps)
qed

subsection \<open>Claim C10\<close>

text \<open>
  Claim C10. The caller's options object is the same after the call as before, whether
  the transform returns or throws: the defaults are merged into a fresh object, and no
  object that existed before the call changes.
\<close>

theorem caller_options_unchanged:
  assumes "p < length (heap s)" and "transform e p s = Some (out, s')"
  shows "heap s' ! p = heap s ! p \<and> take (length (heap s)) (heap s') = heap s"
  using assms transform_heap[OF assms(2)] by (simp add: nth_append)

theorem caller_options_unchanged_witness:
  "0 < length (heap (ex_state ex_options)) \<and>
   returned (transform ex_env 0 (ex_state ex_options)) \<and>
   map_option (\<lambda>(out, s'). heap s' ! 0) (transform ex_env 0 (ex_state ex_options)) = Some ex_options"
proof -
  obtain s' where t: "transform ex_env 0 (ex_state ex_options) = Some (Returned, s')"
    using ex_returns by blast
  have len: "0 < length (heap (ex_state ex_options))" by (simp add: ex_state_simps)
  from caller_options_unchanged [OF len t]
  have "heap s' ! 0 = ex_options" by (simp add: ex_state_simps)
  then show ?thesis using len by (simp add: t returned_def)
qed

end
